theory Spec2Isabelle
  imports Complex_Main "HOL-Library.Char_ord" "HOL-Library.List_Lexorder"
begin

section \<open>Text and scalar values of the validation script\<close>

text \<open>
  The script \<^verbatim>\<open>validar_dados.py\<close> works on Python strings. The email pattern, the texts of
  the cells and the report are modelled on \<^typ>\<open>string\<close>, whose characters are the code points
  below 256; on that range \<^verbatim>\<open>str.strip()\<close> removes the characters for which \<^verbatim>\<open>str.isspace\<close>
  holds, the code points 9 to 13, 28 to 32, 133 and 160. The CPF validator is modelled on
  all code points (next section). A value that may be null (\<^verbatim>\<open>None\<close> or \<^verbatim>\<open>NaN\<close>, for which
  \<^verbatim>\<open>pd.isna\<close> holds) is an option.
\<close>

datatype erro = ValueError | IndexError | FileNotFound

definition codigo :: "char \<Rightarrow> nat" where
  "codigo c = of_char c"

definition py_isspace :: "char \<Rightarrow> bool" where
  "py_isspace c = ((9 \<le> codigo c \<and> codigo c \<le> 13) \<or> (28 \<le> codigo c \<and> codigo c \<le> 32)
     \<or> codigo c = 133 \<or> codigo c = 160)"

definition py_strip :: "string \<Rightarrow> string" where
  "py_strip s = rev (dropWhile py_isspace (rev (dropWhile py_isspace s)))"

definition py_str :: "string option \<Rightarrow> string" where
  "py_str v = (case v of None \<Rightarrow> ''None'' | Some s \<Rightarrow> s)"

definition pd_isna :: "'a option \<Rightarrow> bool" where
  "pd_isna v = (v = None)"

definition so_espacos :: "string \<Rightarrow> bool" where
  "so_espacos s = list_all py_isspace s"



text \<open>\<^verbatim>\<open>s[i]\<close> raises \<^verbatim>\<open>IndexError\<close> outside the string.\<close>

definition py_index :: "'a list \<Rightarrow> nat \<Rightarrow> erro + 'a" where
  "py_index s i = (if i < length s then Inr (s ! i) else Inl IndexError)"

definition bind_erro :: "erro + 'a \<Rightarrow> ('a \<Rightarrow> erro + 'b) \<Rightarrow> erro + 'b" where
  "bind_erro m f = (case m of Inl e \<Rightarrow> Inl e | Inr x \<Rightarrow> f x)"

section \<open>The CPF check digits\<close>

text \<open>
  The CPF validator reads Unicode properties of its input: \<^verbatim>\<open>re.sub(r'\D', '', s)\<close> keeps
  every decimal digit of every script, \<^verbatim>\<open>int(c)\<close> returns the value of any of them and raises
  \<^verbatim>\<open>ValueError\<close> for every other character, and \<^verbatim>\<open>str.strip()\<close> removes every character for
  which \<^verbatim>\<open>str.isspace\<close> holds. Its input is therefore a list of code points, which are integers. The decimal
  digits come in blocks of ten consecutive code points with the values 0 to 9;
  \<open>blocos_decimais\<close> lists the code point of the zero of each block (those of Unicode 14;
  later versions add blocks), the first being \<^verbatim>\<open>0\<close> to \<^verbatim>\<open>9\<close> and 65296 the fullwidth digits. \<open>pontos\<close> gives the code
  points of a text whose characters are below 256.
\<close>

definition blocos_decimais :: "int list" where
  "blocos_decimais =
     [48, 1632, 1776, 1984, 2406, 2534, 2662, 2790, 2918, 3046, 3174, 3302, 3430, 3558, 3664,
      3792, 3872, 4160, 4240, 6112, 6160, 6470, 6608, 6784, 6800, 6992, 7088, 7232, 7248,
      42528, 43216, 43264, 43472, 43504, 43600, 44016, 65296, 66720, 68912, 69734, 69872,
      69942, 70096, 70384, 70736, 70864, 71248, 71360, 71472, 71904, 72016, 72784, 73040,
      73120, 92768, 92864, 93008, 120782, 120792, 120802, 120812, 120822, 123200, 123632,
      125264, 130032]"

fun procurar_bloco :: "int \<Rightarrow> int list \<Rightarrow> int option" where
  "procurar_bloco c [] = None"
| "procurar_bloco c (z # zs) = (if z \<le> c \<and> c < z + 10 then Some (c - z) else procurar_bloco c zs)"

definition valor_decimal :: "int \<Rightarrow> int option" where
  "valor_decimal c = procurar_bloco c blocos_decimais"

definition eh_decimal :: "int \<Rightarrow> bool" where
  "eh_decimal c = (valor_decimal c \<noteq> None)"

definition int_unicode :: "int \<Rightarrow> erro + int" where
  "int_unicode c = (case valor_decimal c of None \<Rightarrow> Inl ValueError | Some v \<Rightarrow> Inr v)"

definition espacos_unicode :: "int list" where
  "espacos_unicode =
     [9, 10, 11, 12, 13, 28, 29, 30, 31, 32, 133, 160, 5760, 8192, 8193, 8194, 8195, 8196,
      8197, 8198, 8199, 8200, 8201, 8202, 8232, 8233, 8239, 8287, 12288]"

definition isspace_unicode :: "int \<Rightarrow> bool" where
  "isspace_unicode c = (c \<in> set espacos_unicode)"

definition strip_unicode :: "int list \<Rightarrow> int list" where
  "strip_unicode s = rev (dropWhile isspace_unicode (rev (dropWhile isspace_unicode s)))"

definition pontos :: "string \<Rightarrow> int list" where
  "pontos s = map of_char s"

definition str_unicode :: "int list option \<Rightarrow> int list" where
  "str_unicode v = (case v of None \<Rightarrow> pontos ''None'' | Some s \<Rightarrow> s)"

text \<open>
  \<^verbatim>\<open>
  def _calcular_digito_verificador(cpf_parcial):
      soma = 0
      for i, digito in enumerate(cpf_parcial):
          soma += int(digito) * (len(cpf_parcial) + 1 - i)
      resto = soma % 11
      return 0 if resto < 2 else 11 - resto
  \<close>
  The loop is \<open>somar_digitos\<close>: \<open>n\<close> is \<^verbatim>\<open>len(cpf_parcial)\<close>, \<open>i\<close> the index handed out by
  \<^verbatim>\<open>enumerate\<close>, the list the characters still to be visited.
\<close>

fun somar_digitos :: "nat \<Rightarrow> nat \<Rightarrow> int list \<Rightarrow> int \<Rightarrow> erro + int" where
  "somar_digitos n i [] soma = Inr soma"
| "somar_digitos n i (digito # resto) soma =
     bind_erro (int_unicode digito)
       (\<lambda>v. somar_digitos n (Suc i) resto (soma + v * (int n + 1 - int i)))"

definition calcular_digito_verificador :: "int list \<Rightarrow> erro + int" where
  "calcular_digito_verificador cpf_parcial =
     bind_erro (somar_digitos (length cpf_parcial) 0 cpf_parcial 0)
       (\<lambda>soma. let resto = soma mod 11 in Inr (if resto < 2 then 0 else 11 - resto))"

text \<open>
  \<^verbatim>\<open>
  def validar_cpf_individual(cpf):
      cpf_str = str(cpf).strip()
      if pd.isna(cpf) or cpf_str == '' or cpf_str == 'nan':
          return False
      cpf_limpo = re.sub(r'\D', '', cpf_str)
      # CPF deve ter 11 digitos
      if len(cpf_limpo) != 11:
          return False
      # CPFs com todos os digitos iguais sao invalidos
      if cpf_limpo == cpf_limpo[0] * 11:
          return False
      digito1 = _calcular_digito_verificador(cpf_limpo[:9])
      if digito1 != int(cpf_limpo[9]):
          return False
      digito2 = _calcular_digito_verificador(cpf_limpo[:10])
      if digito2 != int(cpf_limpo[10]):
          return False
      return True
  \<close>
\<close>

definition validar_cpf_individual :: "int list option \<Rightarrow> erro + bool" where
  "validar_cpf_individual cpf =
     (let cpf_str = strip_unicode (str_unicode cpf) in
      if pd_isna cpf \<or> cpf_str = [] \<or> cpf_str = pontos ''nan'' then Inr False
      else
        let cpf_limpo = filter eh_decimal cpf_str in
        if length cpf_limpo \<noteq> 11 then Inr False
        else
          bind_erro (py_index cpf_limpo 0) (\<lambda>primeiro.
          if cpf_limpo = replicate 11 primeiro then Inr False
          else
            bind_erro (calcular_digito_verificador (take 9 cpf_limpo)) (\<lambda>digito1.
            bind_erro (py_index cpf_limpo 9) (\<lambda>c9.
            bind_erro (int_unicode c9) (\<lambda>d9.
            if digito1 \<noteq> d9 then Inr False
            else
              bind_erro (calcular_digito_verificador (take 10 cpf_limpo)) (\<lambda>digito2.
              bind_erro (py_index cpf_limpo 10) (\<lambda>c10.
              bind_erro (int_unicode c10) (\<lambda>d10.
              if digito2 \<noteq> d10 then Inr False else Inr True))))))))"

subsection \<open>The validator as the specification words it\<close>

text \<open>
  The check digit of a sequence of \<open>L\<close> digits: the sum of \<open>digit[i] * (L + 1 - i)\<close> over the
  positions \<open>i\<close>, reduced modulo 11; the digit is 0 when the remainder is below 2 and 11
  minus the remainder otherwise. In \<open>cpf_valido_spec\<close> a digit is a number: \<open>ds\<close> are the
  values of the digits that remain once every other character is removed.
\<close>

definition digito_esperado :: "int list \<Rightarrow> int" where
  "digito_esperado ds =
     (let L = length ds;
          r = (\<Sum>i\<leftarrow>[0..<L]. ds ! i * (int L + 1 - int i)) mod 11
      in if r < 2 then 0 else 11 - r)"

definition cpf_valido_spec :: "int list option \<Rightarrow> bool" where
  "cpf_valido_spec cpf =
     (case cpf of
        None \<Rightarrow> False
      | Some s \<Rightarrow>
          (let ds = List.map_filter valor_decimal s in
           \<not> list_all isspace_unicode s
           \<and> length ds = 11
           \<and> \<not> list_all (\<lambda>d. d = ds ! 0) ds
           \<and> ds ! 9 = digito_esperado (take 9 ds)
           \<and> ds ! 10 = digito_esperado (take 10 ds)))"

text \<open>
  The same conditions with the third one read on the characters instead of their values:
  the digit characters that remain are not eleven copies of one character. This is what
  the comparison \<^verbatim>\<open>cpf_limpo == cpf_limpo[0] * 11\<close> tests.
\<close>

definition cpf_aceito :: "int list option \<Rightarrow> bool" where
  "cpf_aceito cpf =
     (case cpf of
        None \<Rightarrow> False
      | Some s \<Rightarrow>
          (let cs = filter eh_decimal s; ds = List.map_filter valor_decimal s in
           \<not> list_all isspace_unicode s
           \<and> length ds = 11
           \<and> \<not> list_all (\<lambda>c. c = cs ! 0) cs
           \<and> ds ! 9 = digito_esperado (take 9 ds)
           \<and> ds ! 10 = digito_esperado (take 10 ds)))"

text \<open>
  The input on which the two readings part: ten times the character \<^verbatim>\<open>1\<close> followed by the
  fullwidth digit one (code point 65297).
\<close>

definition cpf_uns :: "int list" where
  "cpf_uns = [49, 49, 49, 49, 49, 49, 49, 49, 49, 49, 65297]"

text \<open>The values of a list of digit characters: a tool of the proofs below.\<close>

definition valores :: "int list \<Rightarrow> int list" where
  "valores cs = map (\<lambda>c. the (valor_decimal c)) cs"

section \<open>The email pattern\<close>

text \<open>
  The pattern of the script is
  \<^verbatim>\<open>^[a-zA-Z0-9._%+-]+@[a-zA-Z0-9.-]+\.[a-zA-Z]{2,}$\<close>, used with \<^verbatim>\<open>re.match\<close> and no flag.
  Its pieces are a character class repeated at least \<open>n\<close> times (\<^verbatim>\<open>+\<close> is at least once,
  \<^verbatim>\<open>{2,}\<close> at least twice), a literal character and the two anchors. Without
  \<^verbatim>\<open>re.MULTILINE\<close> the anchor \<^verbatim>\<open>^\<close> holds at position 0 only, and \<^verbatim>\<open>$\<close> holds at the end
  of the string and also just before a newline that is the last character of the string.
  \<^verbatim>\<open>re.match\<close> starts at position 0 and backtracks over every split, so its truth value is
  the existence of a match; \<open>casa\<close> computes it, \<open>pos\<close> being the number of characters
  consumed so far.
\<close>

datatype faixa = Entre char char | Um char

fun na_faixa :: "faixa \<Rightarrow> char \<Rightarrow> bool" where
  "na_faixa (Entre a b) c = (codigo a \<le> codigo c \<and> codigo c \<le> codigo b)"
| "na_faixa (Um a) c = (c = a)"

definition na_classe :: "faixa list \<Rightarrow> char \<Rightarrow> bool" where
  "na_classe cl c = list_ex (\<lambda>f. na_faixa f c) cl"

datatype item = Inicio | Fim | Literal char | Repete nat "faixa list"

fun casa :: "item list \<Rightarrow> nat \<Rightarrow> string \<Rightarrow> bool" where
  "casa [] pos s = True"
| "casa (Inicio # p) pos s = (pos = 0 \<and> casa p pos s)"
| "casa (Fim # p) pos s = ((s = [] \<or> s = [CHR 0x0A]) \<and> casa p pos s)"
| "casa (Literal c # p) pos [] = False"
| "casa (Literal c # p) pos (x # xs) = (x = c \<and> casa p (Suc pos) xs)"
| "casa (Repete n cl # p) pos [] = (n = 0 \<and> casa p pos [])"
| "casa (Repete n cl # p) pos (x # xs) =
     ((na_classe cl x \<and> casa (Repete (n - 1) cl # p) (Suc pos) xs)
      \<or> (n = 0 \<and> casa p pos (x # xs)))"

definition classe_local :: "faixa list" where
  "classe_local = [Entre CHR ''a'' CHR ''z'', Entre CHR ''A'' CHR ''Z'', Entre CHR ''0'' CHR ''9'',
     Um CHR ''.'', Um CHR ''_'', Um CHR ''%'', Um CHR ''+'', Um CHR ''-'']"

definition classe_dominio :: "faixa list" where
  "classe_dominio = [Entre CHR ''a'' CHR ''z'', Entre CHR ''A'' CHR ''Z'', Entre CHR ''0'' CHR ''9'',
     Um CHR ''.'', Um CHR ''-'']"

definition classe_letras :: "faixa list" where
  "classe_letras = [Entre CHR ''a'' CHR ''z'', Entre CHR ''A'' CHR ''Z'']"

definition padrao :: "item list" where
  "padrao = [Inicio, Repete 1 classe_local, Literal CHR ''@'', Repete 1 classe_dominio,
     Literal CHR ''.'', Repete 2 classe_letras, Fim]"

definition re_match :: "item list \<Rightarrow> string \<Rightarrow> bool" where
  "re_match p s = casa p 0 s"

text \<open>
  \<^verbatim>\<open>
  def validar_email_individual(email):
      if pd.isna(email) or str(email).strip() == '' or str(email).strip() == 'nan':
          return False
      padrao = r'^[a-zA-Z0-9._%+-]+@[a-zA-Z0-9.-]+\.[a-zA-Z]{2,}$'
      return bool(re.match(padrao, str(email)))
  \<close>
\<close>

definition validar_email_individual :: "string option \<Rightarrow> bool" where
  "validar_email_individual email =
     (if pd_isna email \<or> py_strip (py_str email) = '''' \<or> py_strip (py_str email) = ''nan''
      then False
      else re_match padrao (py_str email))"

subsection \<open>The email shape as the specification words it\<close>

text \<open>
  The whole string is one or more characters of \<^verbatim>\<open>[alnum . _ % + -]\<close>, then \<^verbatim>\<open>@\<close>, then a
  domain, then a dot, then a final label of at least two letters; \<open>i\<close> is the position of
  the \<^verbatim>\<open>@\<close> and \<open>j\<close> the position of the dot before the final label. The domain before that
  dot is one or more characters of \<^verbatim>\<open>[alnum . -]\<close>, as in the pattern.
\<close>

definition forma_em :: "string \<Rightarrow> nat \<Rightarrow> nat \<Rightarrow> bool" where
  "forma_em s i j =
     (0 < i \<and> Suc i < j \<and> j < length s
      \<and> s ! i = CHR ''@'' \<and> s ! j = CHR ''.''
      \<and> list_all (na_classe classe_local) (take i s)
      \<and> list_all (na_classe classe_dominio) (take (j - Suc i) (drop (Suc i) s))
      \<and> 2 \<le> length s - Suc j
      \<and> list_all (na_classe classe_letras) (drop (Suc j) s))"

definition email_forma :: "string \<Rightarrow> bool" where
  "email_forma s = list_ex (\<lambda>i. list_ex (\<lambda>j. forma_em s i j) [0..<length s]) [0..<length s]"

definition email_valido_spec :: "string option \<Rightarrow> bool" where
  "email_valido_spec email =
     (case email of None \<Rightarrow> False | Some s \<Rightarrow> \<not> so_espacos s \<and> email_forma s)"

text \<open>
  The same shape as a splitting of the string, followed by \<open>fim\<close>: a tool of the proofs
  below.
\<close>

definition partes :: "string \<Rightarrow> string \<Rightarrow> bool" where
  "partes s fim \<longleftrightarrow> (\<exists>loc dom tld. s = loc @ CHR ''@'' # dom @ CHR ''.'' # tld @ fim
      \<and> 1 \<le> length loc \<and> list_all (na_classe classe_local) loc
      \<and> 1 \<le> length dom \<and> list_all (na_classe classe_dominio) dom
      \<and> 2 \<le> length tld \<and> list_all (na_classe classe_letras) tld)"

section \<open>Cells, frames and the schema\<close>

text \<open>
  A cell is empty, a text, a whole number or a decimal number (the exact value of the
  number). A table is a header and its rows; a row shorter than the header has empty cells
  at its end. The argument of \<open>validar_dados\<close> below stands for what \<^verbatim>\<open>pd.read_excel\<close> yields
  for the path it is given: the error it raises, or the table it has read, every cell with
  the type that the reader gave to it. \<open>pd_read_excel\<close> makes the frame of that table, whose
  rows carry the labels 0, 1, 2 and so on. \<open>registros_de\<close> is the table of the records of a
  frame, their labels dropped.
\<close>

datatype celula = Nulo | Texto string | Inteiro int | Decimal rat

record planilha =
  cabecalho :: "string list"
  registros :: "celula list list"

record dataframe =
  colunas :: "string list"
  linhas :: "(nat \<times> celula list) list"

definition pd_read_excel :: "erro + planilha \<Rightarrow> erro + dataframe" where
  "pd_read_excel arquivo =
     bind_erro arquivo
       (\<lambda>p. Inr \<lparr>colunas = cabecalho p, linhas = enumerate 0 (registros p)\<rparr>)"


fun posicao :: "'a \<Rightarrow> 'a list \<Rightarrow> nat option" where
  "posicao x [] = None"
| "posicao x (y # ys) = (if x = y then Some 0 else map_option Suc (posicao x ys))"

definition celula_pos :: "celula list \<Rightarrow> nat \<Rightarrow> celula" where
  "celula_pos r j = (if j < length r then r ! j else Nulo)"

definition celula_de :: "string list \<Rightarrow> celula list \<Rightarrow> string \<Rightarrow> celula" where
  "celula_de cols r nome = (case posicao nome cols of None \<Rightarrow> Nulo | Some j \<Rightarrow> celula_pos r j)"

text \<open>
  The schema of the script, a \<^verbatim>\<open>DataFrameSchema\<close> with \<^verbatim>\<open>strict=False\<close> and
  \<^verbatim>\<open>coerce=True\<close>: per column its type, its checks with the text reported when one fails,
  and the flags \<^verbatim>\<open>nullable\<close> and \<^verbatim>\<open>coerce\<close>. A check without an \<^verbatim>\<open>error\<close> argument is
  reported under its own name. Accented letters are the code points of the source text.
  \<^verbatim>\<open>
  "nome": Column(str, checks=[Check.str_length(min_value=1, max_value=255)],
                 nullable=False, coerce=True),
  "cpf": Column(str, checks=[Check(validar_cpf, error="CPF invalido")],
                nullable=False, coerce=True),
  "email": Column(str, checks=[Check(validar_email, error="Email invalido")],
                  nullable=False, coerce=True),
  "valor_contrato": Column(float,
      checks=[Check.greater_than_or_equal_to(0, error="Valor do contrato nao pode ser negativo")],
      nullable=False, coerce=True),
  "idade": Column(int,
      checks=[Check.greater_than_or_equal_to(1, error="Idade deve ser maior ou igual a 1"),
              Check.less_than_or_equal_to(150, error="Idade deve ser menor ou igual a 100 anos")],
      nullable=False, coerce=True)
  \<close>
\<close>

datatype tipo = T_str | T_float | T_int

datatype verificacao =
    Str_length nat nat
  | Validar_cpf
  | Validar_email
  | Greater_than_or_equal_to rat
  | Less_than_or_equal_to rat

record coluna =
  dtype :: tipo
  checks :: "(verificacao \<times> string) list"
  nullable :: bool
  coerce :: bool

definition schema :: "(string \<times> coluna) list" where
  "schema =
     [(''nome'', \<lparr>dtype = T_str, checks = [(Str_length 1 255, ''str_length(1, 255)'')],
         nullable = False, coerce = True\<rparr>),
      (''cpf'', \<lparr>dtype = T_str, checks = [(Validar_cpf, ''CPF inv'' @ [CHR 0xE1] @ ''lido'')],
         nullable = False, coerce = True\<rparr>),
      (''email'', \<lparr>dtype = T_str, checks = [(Validar_email, ''Email inv'' @ [CHR 0xE1] @ ''lido'')],
         nullable = False, coerce = True\<rparr>),
      (''valor_contrato'', \<lparr>dtype = T_float,
         checks = [(Greater_than_or_equal_to 0,
                    ''Valor do contrato n'' @ [CHR 0xE3] @ ''o pode ser negativo'')],
         nullable = False, coerce = True\<rparr>),
      (''idade'', \<lparr>dtype = T_int,
         checks = [(Greater_than_or_equal_to 1, ''Idade deve ser maior ou igual a 1''),
                   (Less_than_or_equal_to 150, ''Idade deve ser menor ou igual a 100 anos'')],
         nullable = False, coerce = True\<rparr>)]"

text \<open>
  A check applied to one value of a column. \<^verbatim>\<open>validar_cpf\<close> and \<^verbatim>\<open>validar_email\<close> apply the
  individual validators to every element of the series; the length check reads a text, the
  two bound checks read a number. A check that cannot read the value does not pass.
\<close>

fun check_ok :: "verificacao \<Rightarrow> celula \<Rightarrow> bool" where
  "check_ok (Str_length lo hi) (Texto s) = (lo \<le> length s \<and> length s \<le> hi)"
| "check_ok Validar_cpf (Texto s) = (validar_cpf_individual (Some (pontos s)) = Inr True)"
| "check_ok Validar_email (Texto s) = validar_email_individual (Some s)"
| "check_ok (Greater_than_or_equal_to b) (Inteiro n) = (b \<le> of_int n)"
| "check_ok (Greater_than_or_equal_to b) (Decimal q) = (b \<le> q)"
| "check_ok (Less_than_or_equal_to b) (Inteiro n) = (of_int n \<le> b)"
| "check_ok (Less_than_or_equal_to b) (Decimal q) = (q \<le> b)"
| "check_ok _ _ = False"

definition checks_que_falham :: "coluna \<Rightarrow> celula \<Rightarrow> (verificacao \<times> string) list" where
  "checks_que_falham col v = filter (\<lambda>(chk, rotulo). \<not> check_ok chk v) (checks col)"

definition passa_checks :: "string \<Rightarrow> celula \<Rightarrow> bool" where
  "passa_checks nome v =
     (case map_of schema nome of None \<Rightarrow> True | Some col \<Rightarrow> checks_que_falham col v = [])"

section \<open>Lazy validation of a frame\<close>

text \<open>
  One row of the table of failure cases that lazy validation collects, with the fields the
  script reads: the label of the row (absent for a failure of the frame as a whole), the
  column, the text of the check and the offending value.
\<close>

record falha =
  f_index :: "nat option"
  f_column :: "string option"
  f_check :: string
  f_failure_case :: "celula option"

datatype resultado = Validado dataframe | SchemaErrors "falha list"

text \<open>
  Modelled from the spec: \<^verbatim>\<open>schema.validate(df, lazy=True)\<close> is the validation engine of the
  specification; it belongs to the pandera library and is not part of the source of the
  script. The definitions from \<open>coagir\<close> to \<open>schema_validate\<close> below are this model; the
  schema they run is the one declared in the source. For every record, for every field of the schema, the cell is coerced to the type
  of the field, a null in a non-nullable field is a failure, and every check of the field
  is evaluated on the coerced value; each check that fails appends a failure with the row
  label, the field, the text of the check and the value, and evaluation does not stop at
  the first failing field, record or check. A value that cannot be coerced is a failure on
  that field. The conversion of a value to a type is the data library's; it is the
  parameter \<open>co\<close>, which returns \<open>None\<close> when the value cannot be converted.

  The specification calls a field of the schema that the frame does not have a fatal
  error. The library, in the lazy mode that the script asks for, collects it like every
  other error: one failure case \<^verbatim>\<open>column_in_dataframe\<close> without a row label, whose value is
  the name of the field. This is the kind of entry that the script removes with
  \<^verbatim>\<open>erros_df[erros_df['index'].notna()]\<close>. When nothing was collected the coerced frame is
  returned, otherwise \<^verbatim>\<open>SchemaErrors\<close> is raised with the collected failure cases.
\<close>

definition coagir :: "(tipo \<Rightarrow> celula \<Rightarrow> celula option) \<Rightarrow> coluna \<Rightarrow> celula \<Rightarrow> celula option" where
  "coagir co col c = (if coerce col then co (dtype col) c else Some c)"

definition falhas_celula ::
  "(tipo \<Rightarrow> celula \<Rightarrow> celula option) \<Rightarrow> nat \<Rightarrow> string \<Rightarrow> coluna \<Rightarrow> celula \<Rightarrow> falha list" where
  "falhas_celula co i nome col c =
     (case coagir co col c of
        None \<Rightarrow> [\<lparr>f_index = Some i, f_column = Some nome, f_check = ''coerce_dtype'',
                  f_failure_case = Some c\<rparr>]
      | Some v \<Rightarrow>
          if v = Nulo then
            (if nullable col then []
             else [\<lparr>f_index = Some i, f_column = Some nome, f_check = ''not_nullable'',
                    f_failure_case = None\<rparr>])
          else map (\<lambda>(chk, rotulo). \<lparr>f_index = Some i, f_column = Some nome, f_check = rotulo,
                                      f_failure_case = Some v\<rparr>)
                 (checks_que_falham col v))"

definition campos_presentes :: "string list \<Rightarrow> (string \<times> coluna) list" where
  "campos_presentes cols = filter (\<lambda>(nome, col). nome \<in> set cols) schema"

definition campos_ausentes :: "string list \<Rightarrow> (string \<times> coluna) list" where
  "campos_ausentes cols = filter (\<lambda>(nome, col). nome \<notin> set cols) schema"

definition falhas_linha ::
  "(tipo \<Rightarrow> celula \<Rightarrow> celula option) \<Rightarrow> string list \<Rightarrow> nat \<times> celula list \<Rightarrow> falha list" where
  "falhas_linha co cols linha =
     concat (map (\<lambda>(nome, col). falhas_celula co (fst linha) nome col (celula_de cols (snd linha) nome))
               (campos_presentes cols))"

definition falhas_ausentes :: "string list \<Rightarrow> falha list" where
  "falhas_ausentes cols =
     map (\<lambda>(nome, col). \<lparr>f_index = None, f_column = None, f_check = ''column_in_dataframe'',
                          f_failure_case = Some (Texto nome)\<rparr>)
       (campos_ausentes cols)"

definition coagir_celula ::
  "(tipo \<Rightarrow> celula \<Rightarrow> celula option) \<Rightarrow> string \<Rightarrow> celula \<Rightarrow> celula" where
  "coagir_celula co nome c =
     (case map_of schema nome of
        None \<Rightarrow> c
      | Some col \<Rightarrow> (case coagir co col c of None \<Rightarrow> c | Some v \<Rightarrow> v))"

definition coagir_linha ::
  "(tipo \<Rightarrow> celula \<Rightarrow> celula option) \<Rightarrow> string list \<Rightarrow> celula list \<Rightarrow> celula list" where
  "coagir_linha co cols r =
     map (\<lambda>j. coagir_celula co (cols ! j) (celula_pos r j)) [0..<length cols]"

definition schema_validate :: "(tipo \<Rightarrow> celula \<Rightarrow> celula option) \<Rightarrow> dataframe \<Rightarrow> resultado" where
  "schema_validate co df =
     (let failure_cases =
            falhas_ausentes (colunas df) @ concat (map (falhas_linha co (colunas df)) (linhas df))
      in if failure_cases = []
         then Validado (df\<lparr>linhas := map (\<lambda>(i, r). (i, coagir_linha co (colunas df) r)) (linhas df)\<rparr>)
         else SchemaErrors failure_cases)"

text \<open>
  The script itself. Reading the file may fail, and that error reaches the caller; the
  messages printed on the console are left out.
  \<^verbatim>\<open>
  def validar_dados(arquivo_entrada):
      df = pd.read_excel(arquivo_entrada, engine='openpyxl')
      try:
          dados_validados = schema.validate(df, lazy=True)
          return dados_validados, pd.DataFrame()
      except pa.errors.SchemaErrors as e:
          erros_df = e.failure_cases
          erros_df = erros_df[erros_df['index'].notna()]
          linhas_com_erro = set(erros_df['index'].unique())
          dados_validos = df[~df.index.isin(linhas_com_erro)]
          return dados_validos, erros_df
  \<close>
\<close>

definition validar_dados ::
  "(tipo \<Rightarrow> celula \<Rightarrow> celula option) \<Rightarrow> erro + planilha \<Rightarrow> erro + dataframe \<times> falha list" where
  "validar_dados co arquivo_entrada =
     bind_erro (pd_read_excel arquivo_entrada) (\<lambda>df.
       case schema_validate co df of
         Validado dados_validados \<Rightarrow> Inr (dados_validados, [])
       | SchemaErrors failure_cases \<Rightarrow>
           (let erros_df = filter (\<lambda>f. f_index f \<noteq> None) failure_cases;
                linhas_com_erro = set (List.map_filter f_index erros_df);
                dados_validos = df\<lparr>linhas := filter (\<lambda>(i, r). i \<notin> linhas_com_erro) (linhas df)\<rparr>
            in Inr (dados_validos, erros_df)))"

text \<open>
  A conversion for the examples: a value that already has the type of the column is kept, a
  whole number becomes a decimal in a decimal column, and an empty cell stays empty.
\<close>

fun coerce_basico :: "tipo \<Rightarrow> celula \<Rightarrow> celula option" where
  "coerce_basico t Nulo = Some Nulo"
| "coerce_basico T_str (Texto s) = Some (Texto s)"
| "coerce_basico T_float (Decimal q) = Some (Decimal q)"
| "coerce_basico T_float (Inteiro n) = Some (Decimal (of_int n))"
| "coerce_basico T_int (Inteiro n) = Some (Inteiro n)"
| "coerce_basico _ _ = None"

text \<open>
  A record violates a field of the schema when the field is in the frame and the cell is
  not accepted: it cannot be coerced, it is null in a non-nullable field, or one of the
  checks of the field does not pass on the coerced value.
\<close>

definition viola ::
  "(tipo \<Rightarrow> celula \<Rightarrow> celula option) \<Rightarrow> string list \<Rightarrow> celula list \<Rightarrow> string \<Rightarrow> bool" where
  "viola co cols r campo =
     (case map_of schema campo of
        None \<Rightarrow> False
      | Some col \<Rightarrow>
          campo \<in> set cols
          \<and> (case coagir co col (celula_de cols r campo) of
                None \<Rightarrow> True
              | Some v \<Rightarrow>
                  if v = Nulo then \<not> nullable col
                  else \<not> list_all (\<lambda>(chk, rotulo). check_ok chk v) (checks col)))"

text \<open>
  Three sheets for the examples: three records of which the second has an email without a
  final label; the same with an age of 0 as well in the second record; and one record in a
  sheet that has no \<^verbatim>\<open>cpf\<close> column.
\<close>

definition planilha_exemplo :: planilha where
  "planilha_exemplo =
     \<lparr>cabecalho = [''nome'', ''cpf'', ''email'', ''valor_contrato'', ''idade''],
      registros =
        [[Texto ''Ana'', Texto ''111.444.777-35'', Texto ''ana@b.com'', Decimal 100, Inteiro 30],
         [Texto ''Rui'', Texto ''111.444.777-35'', Texto ''a@b'', Decimal 5, Inteiro 41],
         [Texto ''Eva'', Texto ''11144477735'', Texto ''eva@b.com'', Inteiro 7, Inteiro 150]]\<rparr>"

definition planilha_duas_falhas :: planilha where
  "planilha_duas_falhas =
     \<lparr>cabecalho = [''nome'', ''cpf'', ''email'', ''valor_contrato'', ''idade''],
      registros =
        [[Texto ''Ana'', Texto ''111.444.777-35'', Texto ''ana@b.com'', Decimal 100, Inteiro 30],
         [Texto ''Rui'', Texto ''111.444.777-35'', Texto ''a@b'', Decimal 5, Inteiro 0]]\<rparr>"

definition planilha_sem_cpf :: planilha where
  "planilha_sem_cpf =
     \<lparr>cabecalho = [''nome'', ''email'', ''valor_contrato'', ''idade''],
      registros = [[Texto ''Ana'', Texto ''ana@b.com'', Decimal 100, Inteiro 30]]\<rparr>"

section \<open>The error report and the summary\<close>

text \<open>
  The report is written to a file opened with \<^verbatim>\<open>encoding='utf-8'\<close>, so what reaches the file
  is the UTF-8 encoding of the text: one byte for a code point below 128 and two bytes for
  the others below 256. The rule \<^verbatim>\<open>'\<dots>' * 80\<close> of the record sections repeats the box-drawing
  character U+2500, whose encoding is the three bytes E2 94 80. Numbers are interpolated in
  decimal notation.
\<close>

definition utf8 :: "string \<Rightarrow> string" where
  "utf8 s = concat (map (\<lambda>c. if codigo c < 128 then [c]
                              else [char_of (192 + codigo c div 64), char_of (128 + codigo c mod 64)]) s)"

definition tracos :: string where
  "tracos = concat (replicate 80 [CHR 0xE2, CHR 0x94, CHR 0x80])"

definition iguais :: string where
  "iguais = replicate 80 CHR ''=''"

definition nl :: string where
  "nl = [CHR 0x0A]"

definition digito_char :: "nat \<Rightarrow> char" where
  "digito_char n = char_of (48 + n mod 10)"

function decimal :: "nat \<Rightarrow> string" where
  "decimal n = (if n < 10 then [digito_char n] else decimal (n div 10) @ [digito_char n])"
  by pat_completeness auto
termination
  by (relation "measure (\<lambda>n. n)") auto

declare decimal.simps [simp del]

text \<open>
  The wall clock, as \<^verbatim>\<open>datetime.now()\<close> reads it, and
  \<^verbatim>\<open>strftime('%d/%m/%Y %H:%M:%S')\<close>: two digits for every field but the year.
\<close>

record datahora =
  dia :: nat
  mes :: nat
  ano :: nat
  hora :: nat
  minuto :: nat
  segundo :: nat

definition dois_digitos :: "nat \<Rightarrow> string" where
  "dois_digitos n = [digito_char (n div 10), digito_char n]"

definition strftime :: "datahora \<Rightarrow> string" where
  "strftime t =
     dois_digitos (dia t) @ ''/'' @ dois_digitos (mes t) @ ''/'' @ decimal (ano t) @ '' ''
     @ dois_digitos (hora t) @ '':'' @ dois_digitos (minuto t) @ '':'' @ dois_digitos (segundo t)"

text \<open>
  The world in which the script runs: the clock and the files. The arguments of
  \<^verbatim>\<open>gerar_relatorio_erros\<close> are the failures and the path of the report; the time is not one
  of them. \<open>str_valor\<close> is \<^verbatim>\<open>str()\<close> on an offending value, as the f-string applies it.
  Each element of the lists below is the argument of one \<^verbatim>\<open>f.write\<close>.
  \<^verbatim>\<open>
  def gerar_relatorio_erros(erros, arquivo_saida):
      with open(arquivo_saida, 'w', encoding='utf-8') as f:
          f.write("=" * 80 + "\n")
          f.write("RELATORIO DE ERROS - VALIDACAO DE DADOS DE CLIENTES\n")
          f.write("=" * 80 + "\n")
          f.write(f"Data/Hora: {datetime.now().strftime('%d/%m/%Y %H:%M:%S')}\n")
          f.write(f"Total de erros: {len(erros)}\n")
          f.write("=" * 80 + "\n\n")
          for idx, grupo in erros.groupby('index'):
              f.write(f"\n{'-' * 80}\n")
              f.write(f"LINHA {idx + 2}\n")
              f.write(f"{'-' * 80}\n")
              for _, erro in grupo.iterrows():
                  f.write(f"\n  Campo: {erro['column']}\n")
                  f.write(f"  Erro: {erro['check']}\n")
                  if pd.notna(erro.get('failure_case')):
                      f.write(f"  Valor: {erro['failure_case']}\n")
          f.write("\n" + "=" * 80 + "\n")
          f.write("FIM DO RELATORIO\n")
          f.write("=" * 80 + "\n")
  \<close>
  (the accented capitals of the two titles and the box-drawing rule are written here
  without accent). \<^verbatim>\<open>groupby('index')\<close> visits the row labels in ascending order and keeps,
  inside a group, the order of the failures.
\<close>

record mundo =
  relogio :: datahora
  arquivos :: "string \<Rightarrow> string option"

definition cabecalho_relatorio :: "datahora \<Rightarrow> nat \<Rightarrow> string list" where
  "cabecalho_relatorio agora n_erros =
     [utf8 (iguais @ nl),
      utf8 (''RELAT'' @ [CHR 0xD3] @ ''RIO DE ERROS - VALIDA'' @ [CHR 0xC7, CHR 0xC3]
            @ ''O DE DADOS DE CLIENTES'' @ nl),
      utf8 (iguais @ nl),
      utf8 (''Data/Hora: '' @ strftime agora @ nl),
      utf8 (''Total de erros: '' @ decimal n_erros @ nl),
      utf8 (iguais @ nl @ nl)]"

definition escritas_erro :: "(celula \<Rightarrow> string) \<Rightarrow> falha \<Rightarrow> string list" where
  "escritas_erro str_valor erro =
     [utf8 (nl @ ''  Campo: '' @ py_str (f_column erro) @ nl),
      utf8 (''  Erro: '' @ f_check erro @ nl)]
     @ (case f_failure_case erro of
          None \<Rightarrow> []
        | Some v \<Rightarrow> [utf8 (''  Valor: '' @ str_valor v @ nl)])"

definition escritas_grupo :: "(celula \<Rightarrow> string) \<Rightarrow> falha list \<Rightarrow> nat \<Rightarrow> string list" where
  "escritas_grupo str_valor erros idx =
     [utf8 nl @ tracos @ utf8 nl,
      utf8 (''LINHA '' @ decimal (idx + 2) @ nl),
      tracos @ utf8 nl]
     @ concat (map (escritas_erro str_valor) (filter (\<lambda>e. f_index e = Some idx) erros))"

definition corpo_relatorio :: "(celula \<Rightarrow> string) \<Rightarrow> falha list \<Rightarrow> string list" where
  "corpo_relatorio str_valor erros =
     concat (map (escritas_grupo str_valor erros) (sort (remdups (List.map_filter f_index erros))))"

definition rodape_relatorio :: "string list" where
  "rodape_relatorio =
     [utf8 (nl @ iguais @ nl),
      utf8 (''FIM DO RELAT'' @ [CHR 0xD3] @ ''RIO'' @ nl),
      utf8 (iguais @ nl)]"

definition gerar_relatorio_erros ::
  "(celula \<Rightarrow> string) \<Rightarrow> falha list \<Rightarrow> string \<Rightarrow> mundo \<Rightarrow> mundo" where
  "gerar_relatorio_erros str_valor erros arquivo_saida w =
     w\<lparr>arquivos := (arquivos w)
          (arquivo_saida \<mapsto> concat (cabecalho_relatorio (relogio w) (length erros)
                                      @ corpo_relatorio str_valor erros
                                      @ rodape_relatorio))\<rparr>"

text \<open>
  The summary that \<^verbatim>\<open>main\<close> prints:
  \<^verbatim>\<open>resumo = erros.groupby('column').size().sort_values(ascending=False)\<close>.
  \<^verbatim>\<open>groupby\<close> forms one group per column name, in ascending order of the names, and leaves
  out the failures without a column. \<^verbatim>\<open>sort_values(ascending=False)\<close> then orders the sizes
  downwards; it is the data library's sort with its default algorithm, which is not stable,
  so the place of entries with equal sizes is not fixed by the script. The sort is the
  parameter \<open>sort_values\<close>. The script never looks at the order in which the schema
  declares its fields.
\<close>

definition resumo_erros ::
  "((string \<times> nat) list \<Rightarrow> (string \<times> nat) list) \<Rightarrow> falha list \<Rightarrow> (string \<times> nat) list" where
  "resumo_erros sort_values erros =
     sort_values
       (map (\<lambda>campo. (campo, length (filter (\<lambda>e. f_column e = Some campo) erros)))
          (sort (remdups (List.map_filter f_column erros))))"

text \<open>
  Two sorts for the examples. The first sorts upwards and reverses the result, so that
  entries with equal sizes come out in the reverse of the order of the groups; the second
  keeps entries with equal sizes in the order of the groups.
\<close>

definition ordem_invertida :: "(string \<times> nat) list \<Rightarrow> (string \<times> nat) list" where
  "ordem_invertida xs = rev (sort_key snd xs)"

definition ordem_estavel :: "(string \<times> nat) list \<Rightarrow> (string \<times> nat) list" where
  "ordem_estavel xs = sort_key (\<lambda>(campo, quantidade). - int quantidade) xs"

text \<open>
  The order that the specification states for the summary: sizes downwards, and for equal
  sizes the order in which the schema declares the fields.
\<close>

definition ordem_declaracao :: "string \<Rightarrow> nat" where
  "ordem_declaracao campo =
     (case posicao campo (map fst schema) of None \<Rightarrow> length schema | Some k \<Rightarrow> k)"

definition resumo_ordem_spec :: "(string \<times> nat) list \<Rightarrow> bool" where
  "resumo_ordem_spec r =
     sorted_wrt (\<lambda>(c1, n1) (c2, n2). n2 < n1 \<or> (n1 = n2 \<and> ordem_declaracao c1 < ordem_declaracao c2)) r"

definition falha_de :: "nat \<Rightarrow> string \<Rightarrow> falha" where
  "falha_de i campo =
     \<lparr>f_index = Some i, f_column = Some campo, f_check = ''not_nullable'', f_failure_case = None\<rparr>"

definition meio_dia :: datahora where
  "meio_dia = \<lparr>dia = 4, mes = 11, ano = 2026, hora = 12, minuto = 0, segundo = 0\<rparr>"

definition meia_noite :: datahora where
  "meia_noite = \<lparr>dia = 5, mes = 11, ano = 2026, hora = 0, minuto = 0, segundo = 0\<rparr>"

section \<open>Writing the valid records and reading them again\<close>








section \<open>Properties of the CPF validator\<close>

lemma bind_erro_Inr [simp]: "bind_erro (Inr x) f = f x"
  by (simp add: bind_erro_def)

lemma bind_erro_Inl [simp]: "bind_erro (Inl e) f = Inl e"
  by (simp add: bind_erro_def)

lemma sum_list_upt_shift:
  "(\<Sum>j\<leftarrow>[0..<Suc n]. f j) = f 0 + (\<Sum>j\<leftarrow>[0..<n]. f (Suc j))"
proof -
  have "[0..<Suc n] = 0 # map Suc [0..<n]"
    by (simp add: upt_conv_Cons map_Suc_upt del: upt_Suc)
  then show ?thesis by (simp add: comp_def del: upt_Suc)
qed

lemma map_filter_valores: "List.map_filter valor_decimal s = valores (filter eh_decimal s)"
proof -
  have "(\<lambda>x. valor_decimal x \<noteq> None) = eh_decimal"
    by (simp add: eh_decimal_def fun_eq_iff)
  then show ?thesis
    by (simp only: List.map_filter_def valores_def comp_def)
qed

lemma int_unicode_decimal: "eh_decimal c \<Longrightarrow> int_unicode c = Inr (the (valor_decimal c))"
  by (auto simp: int_unicode_def eh_decimal_def)

lemma somar_digitos_digitos:
  "list_all eh_decimal ds \<Longrightarrow>
   somar_digitos n i ds soma =
     Inr (soma + (\<Sum>j\<leftarrow>[0..<length ds]. valores ds ! j * (int n + 1 - int (i + j))))"
proof (induction ds arbitrary: i soma)
  case Nil
  then show ?case by simp
next
  case (Cons d ds)
  then have d: "eh_decimal d" and ds: "list_all eh_decimal ds" by simp_all
  show ?case
    using Cons.IH [OF ds, of "Suc i" "soma + the (valor_decimal d) * (int n + 1 - int i)"]
    by (simp add: int_unicode_decimal [OF d] sum_list_upt_shift valores_def del: upt_Suc)
qed

lemma calcular_digito_verificador_digitos:
  "list_all eh_decimal ds \<Longrightarrow>
   calcular_digito_verificador ds = Inr (digito_esperado (valores ds))"
  by (simp add: calcular_digito_verificador_def digito_esperado_def somar_digitos_digitos
      Let_def valores_def)

lemma filter_dropWhile_disj:
  "(\<And>x. Q x \<Longrightarrow> \<not> P x) \<Longrightarrow> filter P (dropWhile Q xs) = filter P xs"
  by (induction xs) auto

lemma filter_strip:
  assumes "\<And>x. Q x \<Longrightarrow> \<not> P x"
  shows "filter P (rev (dropWhile Q (rev (dropWhile Q s)))) = filter P s"
proof -
  have "filter P (rev (dropWhile Q (rev (dropWhile Q s))))
      = rev (filter P (dropWhile Q (rev (dropWhile Q s))))"
    by (simp add: rev_filter)
  also have "\<dots> = rev (filter P (rev (dropWhile Q s)))"
    by (simp add: filter_dropWhile_disj assms)
  also have "\<dots> = filter P (dropWhile Q s)"
    by (simp add: rev_filter)
  also have "\<dots> = filter P s"
    by (simp add: filter_dropWhile_disj assms)
  finally show ?thesis .
qed

lemma strip_vazio: "rev (dropWhile Q (rev (dropWhile Q s))) = [] \<longleftrightarrow> list_all Q s"
proof
  assume a: "rev (dropWhile Q (rev (dropWhile Q s))) = []"
  show "list_all Q s"
  proof (rule ccontr)
    assume "\<not> list_all Q s"
    then have ne: "dropWhile Q s \<noteq> []"
      by (simp add: list_all_iff dropWhile_eq_Nil_conv)
    then have "\<not> Q (hd (dropWhile Q s))"
      by (rule hd_dropWhile)
    moreover have "hd (dropWhile Q s) \<in> set (dropWhile Q s)"
      using ne by simp
    ultimately show False
      using a by (auto simp: dropWhile_eq_Nil_conv)
  qed
next
  assume "list_all Q s"
  then have "\<forall>x\<in>set s. Q x"
    by (simp add: list_all_iff)
  then have "dropWhile Q s = []"
    by (simp only: dropWhile_eq_Nil_conv)
  then show "rev (dropWhile Q (rev (dropWhile Q s))) = []"
    by (simp only: rev.simps dropWhile.simps)
qed

lemma espacos_sem_valor: "list_all (\<lambda>c. valor_decimal c = None) espacos_unicode"
  by (simp add: espacos_unicode_def valor_decimal_def blocos_decimais_def)

lemma espaco_nao_decimal: "isspace_unicode c \<Longrightarrow> \<not> eh_decimal c"
  using espacos_sem_valor by (simp add: isspace_unicode_def eh_decimal_def list_all_iff)

lemma filter_decimal_strip: "filter eh_decimal (strip_unicode s) = filter eh_decimal s"
  unfolding strip_unicode_def by (rule filter_strip) (rule espaco_nao_decimal)

lemma strip_unicode_vazio: "strip_unicode s = [] \<longleftrightarrow> list_all isspace_unicode s"
  unfolding strip_unicode_def by (rule strip_vazio)

lemma nan_sem_digitos: "filter eh_decimal (pontos ''nan'') = []"
  by (simp add: eh_decimal_def valor_decimal_def blocos_decimais_def pontos_def)

lemma replicate_iguais:
  assumes "length ds = n"
  shows "ds = replicate n c \<longleftrightarrow> list_all (\<lambda>x. x = c) ds"
proof
  assume "ds = replicate n c"
  then have "set ds \<subseteq> {c}" by (metis set_replicate_conv_if empty_subsetI subset_refl)
  then show "list_all (\<lambda>x. x = c) ds" by (auto simp: list_all_iff)
next
  assume "list_all (\<lambda>x. x = c) ds"
  then have "\<forall>y\<in>set ds. y = c" by (simp add: list_all_iff)
  then have "replicate (length ds) c = ds" by (rule replicate_length_same)
  then show "ds = replicate n c" using assms by simp
qed

lemma validar_cpf_individual_caracteres:
  "validar_cpf_individual cpf = Inr (cpf_aceito cpf)"
proof (cases cpf)
  case None
  then show ?thesis
    by (simp add: validar_cpf_individual_def cpf_aceito_def pd_isna_def)
next
  case (Some s)
  define cs where "cs = filter eh_decimal s"
  have limpo: "filter eh_decimal (strip_unicode s) = cs"
    by (simp add: cs_def filter_decimal_strip)
  have vs: "List.map_filter valor_decimal s = valores cs"
    by (simp add: cs_def map_filter_valores)
  have dig: "list_all eh_decimal cs"
    by (simp add: cs_def list_all_iff)
  show ?thesis
  proof (cases "strip_unicode s = [] \<or> strip_unicode s = pontos ''nan''")
    case True
    then have "list_all isspace_unicode s \<or> cs = []"
    proof
      assume "strip_unicode s = []" then show ?thesis by (simp add: strip_unicode_vazio)
    next
      assume "strip_unicode s = pontos ''nan''"
      then have "filter eh_decimal (strip_unicode s) = []" by (simp only: nan_sem_digitos)
      then show ?thesis using limpo by simp
    qed
    then have "\<not> cpf_aceito cpf"
      using Some vs by (auto simp: cpf_aceito_def Let_def valores_def)
    moreover have "validar_cpf_individual cpf = Inr False"
      using True Some by (auto simp: validar_cpf_individual_def str_unicode_def Let_def)
    ultimately show ?thesis by simp
  next
    case False
    then have ne: "\<not> list_all isspace_unicode s" by (simp add: strip_unicode_vazio)
    show ?thesis
    proof (cases "length cs = 11")
      case False
      then show ?thesis
        using \<open>\<not> (strip_unicode s = [] \<or> strip_unicode s = pontos ''nan'')\<close> Some limpo vs
        by (simp add: validar_cpf_individual_def cpf_aceito_def str_unicode_def pd_isna_def
            Let_def valores_def)
    next
      case True
      have d9: "eh_decimal (cs ! 9)" and d10: "eh_decimal (cs ! 10)"
        using dig True by (simp_all add: list_all_length)
      have t9: "list_all eh_decimal (take 9 cs)" and t10: "list_all eh_decimal (take 10 cs)"
        using dig by (auto simp: list_all_iff dest: in_set_takeD)
      have rep: "cs = replicate 11 (cs ! 0) \<longleftrightarrow> list_all (\<lambda>c. c = cs ! 0) cs"
        using True by (rule replicate_iguais)
      have v9: "valores cs ! 9 = the (valor_decimal (cs ! 9))"
        and v10: "valores cs ! 10 = the (valor_decimal (cs ! 10))"
        using True by (simp_all add: valores_def)
      have tk: "take 9 (valores cs) = valores (take 9 cs)" "take 10 (valores cs) = valores (take 10 cs)"
        by (simp_all add: valores_def take_map)
      have lv: "length (valores cs) = 11" using True by (simp add: valores_def)
      show ?thesis
        using False Some limpo True rep ne vs lv
        by (simp add: validar_cpf_individual_def cpf_aceito_def str_unicode_def pd_isna_def
            Let_def py_index_def int_unicode_decimal [OF d9] int_unicode_decimal [OF d10]
            calcular_digito_verificador_digitos t9 t10 v9 v10 tk cs_def [symmetric])
    qed
  qed
qed

lemma cpf_valido_spec_aceito:
  assumes "cpf_valido_spec cpf"
  shows "validar_cpf_individual cpf = Inr True"
proof -
  from assms obtain s where s: "cpf = Some s" by (cases cpf) (auto simp: cpf_valido_spec_def)
  let ?cs = "filter eh_decimal s"
  have "\<not> list_all (\<lambda>c. c = ?cs ! 0) ?cs"
  proof
    assume a: "list_all (\<lambda>c. c = ?cs ! 0) ?cs"
    have "length ?cs = 11"
      using assms s by (simp add: cpf_valido_spec_def Let_def map_filter_valores valores_def)
    then have "valores ?cs ! 0 = the (valor_decimal (?cs ! 0))" by (simp add: valores_def)
    then have "list_all (\<lambda>d. d = valores ?cs ! 0) (valores ?cs)"
      using a by (auto simp: list_all_iff valores_def)
    then show False
      using assms s by (simp add: cpf_valido_spec_def Let_def map_filter_valores)
  qed
  then have "cpf_aceito cpf"
    using assms s by (simp add: cpf_valido_spec_def cpf_aceito_def Let_def)
  then show ?thesis by (simp add: validar_cpf_individual_caracteres)
qed

lemma validar_cpf_individual_um_sistema:
  assumes "inj_on valor_decimal (set (filter eh_decimal s))"
  shows "validar_cpf_individual (Some s) = Inr (cpf_valido_spec (Some s))"
proof -
  let ?cs = "filter eh_decimal s"
  have "list_all (\<lambda>c. c = ?cs ! 0) ?cs \<longleftrightarrow> list_all (\<lambda>d. d = valores ?cs ! 0) (valores ?cs)"
    if l: "length ?cs = 11"
  proof
    assume "list_all (\<lambda>c. c = ?cs ! 0) ?cs"
    then show "list_all (\<lambda>d. d = valores ?cs ! 0) (valores ?cs)"
      using l by (auto simp: list_all_iff valores_def)
  next
    assume a: "list_all (\<lambda>d. d = valores ?cs ! 0) (valores ?cs)"
    have z: "?cs ! 0 \<in> set ?cs" using l by (intro nth_mem) simp
    have v0: "valores ?cs ! 0 = the (valor_decimal (?cs ! 0))" using l by (simp add: valores_def)
    show "list_all (\<lambda>c. c = ?cs ! 0) ?cs"
      unfolding list_all_iff
    proof
      fix c assume c: "c \<in> set ?cs"
      then have "the (valor_decimal c) = the (valor_decimal (?cs ! 0))"
        using a v0 by (auto simp: list_all_iff valores_def)
      moreover have "valor_decimal c \<noteq> None" "valor_decimal (?cs ! 0) \<noteq> None"
        using c z by (auto simp: eh_decimal_def)
      ultimately have "valor_decimal c = valor_decimal (?cs ! 0)" by auto
      then show "c = ?cs ! 0" using assms c z by (auto dest: inj_onD)
    qed
  qed
  then have "cpf_aceito (Some s) = cpf_valido_spec (Some s)"
    by (auto simp: cpf_aceito_def cpf_valido_spec_def Let_def map_filter_valores valores_def)
  then show ?thesis by (simp add: validar_cpf_individual_caracteres)
qed

lemma valor_decimal_ascii: "48 \<le> c \<Longrightarrow> c \<le> 57 \<Longrightarrow> valor_decimal c = Some (c - 48)"
  by (simp add: valor_decimal_def blocos_decimais_def)

text \<open>
  Claim C1. The claim states that \<open>validar_cpf_individual\<close> returns true exactly when, among
  its other conditions, the 11 digits are not all identical. Ten times the character \<^verbatim>\<open>1\<close>
  followed by the fullwidth digit one has eleven digits that are all 1, yet the validator
  returns true: its comparison is on the characters, not on the digits. The validator does
  return a boolean and never raises (\<open>validar_cpf_individual_caracteres\<close>), it accepts every
  input that the claim accepts (\<open>cpf_valido_spec_aceito\<close>), and it agrees with the claim on
  every input whose digits are written in one script (\<open>validar_cpf_individual_um_sistema\<close>).
\<close>

theorem validar_cpf_individual_aceita_uns:
  "validar_cpf_individual (Some cpf_uns) = Inr True
   \<and> List.map_filter valor_decimal cpf_uns = [1, 1, 1, 1, 1, 1, 1, 1, 1, 1, 1]
   \<and> \<not> cpf_valido_spec (Some cpf_uns)"
  by code_simp

lemma validar_cpf_individual_exemplos:
  "validar_cpf_individual (Some (pontos ''111.444.777-35'')) = Inr True
   \<and> validar_cpf_individual (Some (pontos ''111.111.111-11'')) = Inr False"
  by code_simp

section \<open>Properties of the email validator\<close>

lemma casa_Repete:
  "casa (Repete n cl # p) pos s \<longleftrightarrow>
     (\<exists>ys zs. s = ys @ zs \<and> n \<le> length ys \<and> list_all (na_classe cl) ys
        \<and> casa p (pos + length ys) zs)"
proof (induction s arbitrary: n pos)
  case Nil
  then show ?case by auto
next
  case (Cons x xs)
  show ?case
  proof
    assume "casa (Repete n cl # p) pos (x # xs)"
    then consider (a) "na_classe cl x" "casa (Repete (n - 1) cl # p) (Suc pos) xs"
      | (b) "n = 0" "casa p pos (x # xs)"
      by auto
    then show "\<exists>ys zs. x # xs = ys @ zs \<and> n \<le> length ys \<and> list_all (na_classe cl) ys
        \<and> casa p (pos + length ys) zs"
    proof cases
      case a
      from a(2) obtain ys zs where h: "xs = ys @ zs" "n - 1 \<le> length ys"
        "list_all (na_classe cl) ys" "casa p (Suc pos + length ys) zs"
        unfolding Cons.IH by blast
      have "x # xs = (x # ys) @ zs \<and> n \<le> length (x # ys) \<and> list_all (na_classe cl) (x # ys)
        \<and> casa p (pos + length (x # ys)) zs"
        using h a(1) by simp
      then show ?thesis by blast
    next
      case b
      then have "x # xs = [] @ (x # xs) \<and> n \<le> length ([]::string)
        \<and> list_all (na_classe cl) [] \<and> casa p (pos + length ([]::string)) (x # xs)"
        by simp
      then show ?thesis by blast
    qed
  next
    assume "\<exists>ys zs. x # xs = ys @ zs \<and> n \<le> length ys \<and> list_all (na_classe cl) ys
        \<and> casa p (pos + length ys) zs"
    then obtain ys zs where h: "x # xs = ys @ zs" "n \<le> length ys"
      "list_all (na_classe cl) ys" "casa p (pos + length ys) zs"
      by blast
    show "casa (Repete n cl # p) pos (x # xs)"
    proof (cases ys)
      case Nil
      then have "n = 0" "casa p pos (x # xs)" using h by simp_all
      then show ?thesis by simp
    next
      case (Cons y ys')
      then have "xs = ys' @ zs" "n - 1 \<le> length ys'" "list_all (na_classe cl) ys'"
        "casa p (Suc pos + length ys') zs" "na_classe cl x"
        using h by auto
      then have "casa (Repete (n - 1) cl # p) (Suc pos) xs"
        unfolding Cons.IH by blast
      then show ?thesis using \<open>na_classe cl x\<close> by simp
    qed
  qed
qed

lemma casa_Literal:
  "casa (Literal c # p) pos s \<longleftrightarrow> (\<exists>xs. s = c # xs \<and> casa p (Suc pos) xs)"
  by (cases s) auto

lemma re_match_padrao_partes:
  "re_match padrao s \<longleftrightarrow> partes s [] \<or> partes s [CHR 0x0A]"
proof
  assume "re_match padrao s"
  then obtain loc r1 where a: "s = loc @ r1" "1 \<le> length loc"
    "list_all (na_classe classe_local) loc"
    "casa [Literal CHR ''@'', Repete 1 classe_dominio, Literal CHR ''.'',
       Repete 2 classe_letras, Fim] (0 + length loc) r1"
    unfolding re_match_def padrao_def casa.simps(2) casa_Repete by blast
  from a(4) obtain r2 where b: "r1 = CHR ''@'' # r2"
    "casa [Repete 1 classe_dominio, Literal CHR ''.'', Repete 2 classe_letras, Fim]
       (Suc (0 + length loc)) r2"
    unfolding casa_Literal by blast
  from b(2) obtain dom r3 where c: "r2 = dom @ r3" "1 \<le> length dom"
    "list_all (na_classe classe_dominio) dom"
    "casa [Literal CHR ''.'', Repete 2 classe_letras, Fim]
       (Suc (0 + length loc) + length dom) r3"
    unfolding casa_Repete by blast
  from c(4) obtain r4 where d: "r3 = CHR ''.'' # r4"
    "casa [Repete 2 classe_letras, Fim] (Suc (Suc (0 + length loc) + length dom)) r4"
    unfolding casa_Literal by blast
  from d(2) obtain tld fim where e: "r4 = tld @ fim" "2 \<le> length tld"
    "list_all (na_classe classe_letras) tld"
    "casa [Fim] (Suc (Suc (0 + length loc) + length dom) + length tld) fim"
    unfolding casa_Repete by blast
  from e(4) have f: "fim = [] \<or> fim = [CHR 0x0A]" by simp
  have "s = loc @ CHR ''@'' # dom @ CHR ''.'' # tld @ fim"
    using a(1) b(1) c(1) d(1) e(1) by simp
  then have "partes s fim"
    unfolding partes_def using a(2,3) c(2,3) e(2,3) by blast
  then show "partes s [] \<or> partes s [CHR 0x0A]" using f by auto
next
  assume "partes s [] \<or> partes s [CHR 0x0A]"
  then obtain fim where f: "fim = [] \<or> fim = [CHR 0x0A]" and p: "partes s fim" by blast
  from p obtain loc dom tld where h: "s = loc @ CHR ''@'' # dom @ CHR ''.'' # tld @ fim"
      "1 \<le> length loc" "list_all (na_classe classe_local) loc"
      "1 \<le> length dom" "list_all (na_classe classe_dominio) dom"
      "2 \<le> length tld" "list_all (na_classe classe_letras) tld"
    unfolding partes_def by blast
  have e: "casa [Fim] (Suc (Suc (0 + length loc) + length dom) + length tld) fim"
    using f by auto
  have d: "casa [Repete 2 classe_letras, Fim] (Suc (Suc (0 + length loc) + length dom)) (tld @ fim)"
    unfolding casa_Repete using e h(6,7) by blast
  have c: "casa [Literal CHR ''.'', Repete 2 classe_letras, Fim]
       (Suc (0 + length loc) + length dom) (CHR ''.'' # tld @ fim)"
    using d by simp
  have b: "casa [Repete 1 classe_dominio, Literal CHR ''.'', Repete 2 classe_letras, Fim]
       (Suc (0 + length loc)) (dom @ CHR ''.'' # tld @ fim)"
    unfolding casa_Repete using c h(4,5) by blast
  have a: "casa [Literal CHR ''@'', Repete 1 classe_dominio, Literal CHR ''.'',
       Repete 2 classe_letras, Fim] (0 + length loc) (CHR ''@'' # dom @ CHR ''.'' # tld @ fim)"
    using b by simp
  have "casa (Repete 1 classe_local # [Literal CHR ''@'', Repete 1 classe_dominio, Literal CHR ''.'',
       Repete 2 classe_letras, Fim]) 0 s"
    unfolding casa_Repete using a h(1,2,3) by blast
  then show "re_match padrao s"
    by (simp add: re_match_def padrao_def)
qed

lemma list_ex_upt: "list_ex P [0..<n] \<longleftrightarrow> (\<exists>i<n. P i)"
  by (auto simp: list_ex_iff)

lemma email_forma_partes: "email_forma s \<longleftrightarrow> partes s []"
proof
  assume "email_forma s"
  then obtain i j where ij: "forma_em s i j"
    unfolding email_forma_def list_ex_upt by blast
  then have h: "0 < i" "Suc i < j" "j < length s" "s ! i = CHR ''@''" "s ! j = CHR ''.''"
    "list_all (na_classe classe_local) (take i s)"
    "list_all (na_classe classe_dominio) (take (j - Suc i) (drop (Suc i) s))"
    "2 \<le> length s - Suc j" "list_all (na_classe classe_letras) (drop (Suc j) s)"
    by (simp_all add: forma_em_def)
  have s1: "s = take i s @ s ! i # drop (Suc i) s"
    using h(2,3) by (intro id_take_nth_drop) simp
  have lt: "j - Suc i < length (drop (Suc i) s)" using h(2,3) by simp
  have s2: "drop (Suc i) s = take (j - Suc i) (drop (Suc i) s)
      @ drop (Suc i) s ! (j - Suc i) # drop (Suc (j - Suc i)) (drop (Suc i) s)"
    using lt by (rule id_take_nth_drop)
  have n: "drop (Suc i) s ! (j - Suc i) = s ! j" using h(2,3) by simp
  have d: "drop (Suc (j - Suc i)) (drop (Suc i) s) = drop (Suc j) s"
    using h(2,3) by simp
  have "s = take i s @ CHR ''@'' # take (j - Suc i) (drop (Suc i) s) @ CHR ''.'' # drop (Suc j) s @ []"
    using s1 s2 n d h(4,5) by simp
  moreover have "1 \<le> length (take i s)" using h(1,2,3) by simp
  moreover have "1 \<le> length (take (j - Suc i) (drop (Suc i) s))" using h(2,3) by simp
  moreover have "2 \<le> length (drop (Suc j) s)" using h(8) by simp
  ultimately show "partes s []"
    unfolding partes_def using h(6,7,9) by blast
next
  assume "partes s []"
  then obtain loc dom tld where h: "s = loc @ CHR ''@'' # dom @ CHR ''.'' # tld"
      "1 \<le> length loc" "list_all (na_classe classe_local) loc"
      "1 \<le> length dom" "list_all (na_classe classe_dominio) dom"
      "2 \<le> length tld" "list_all (na_classe classe_letras) tld"
    unfolding partes_def by auto
  let ?i = "length loc" and ?j = "length loc + Suc (length dom)"
  have "loc \<noteq> []" "dom \<noteq> []" using h(2,4) by auto
  then have "forma_em s ?i ?j"
    using h by (simp add: forma_em_def nth_append)
  moreover have "?i < length s" "?j < length s" using h(1) by simp_all
  ultimately show "email_forma s"
    unfolding email_forma_def list_ex_upt by blast
qed

lemma partes_fim: "partes s [CHR 0x0A] \<longleftrightarrow> (\<exists>t. s = t @ [CHR 0x0A] \<and> partes t [])"
proof
  assume "partes s [CHR 0x0A]"
  then obtain loc dom tld where h: "s = loc @ CHR ''@'' # dom @ CHR ''.'' # tld @ [CHR 0x0A]"
      "1 \<le> length loc" "list_all (na_classe classe_local) loc"
      "1 \<le> length dom" "list_all (na_classe classe_dominio) dom"
      "2 \<le> length tld" "list_all (na_classe classe_letras) tld"
    unfolding partes_def by blast
  have "s = (loc @ CHR ''@'' # dom @ CHR ''.'' # tld) @ [CHR 0x0A]" using h(1) by simp
  moreover have "partes (loc @ CHR ''@'' # dom @ CHR ''.'' # tld) []"
    unfolding partes_def using h(2-7) by auto
  ultimately show "\<exists>t. s = t @ [CHR 0x0A] \<and> partes t []" by blast
next
  assume "\<exists>t. s = t @ [CHR 0x0A] \<and> partes t []"
  then obtain t where t: "s = t @ [CHR 0x0A]" "partes t []" by blast
  then obtain loc dom tld where h: "t = loc @ CHR ''@'' # dom @ CHR ''.'' # tld"
      "1 \<le> length loc" "list_all (na_classe classe_local) loc"
      "1 \<le> length dom" "list_all (na_classe classe_dominio) dom"
      "2 \<le> length tld" "list_all (na_classe classe_letras) tld"
    unfolding partes_def by auto
  have "s = loc @ CHR ''@'' # dom @ CHR ''.'' # tld @ [CHR 0x0A]" using t(1) h(1) by simp
  then show "partes s [CHR 0x0A]"
    unfolding partes_def using h(2-7) by blast
qed

lemma re_match_padrao_forma:
  "re_match padrao s \<longleftrightarrow> email_forma s \<or> (\<exists>t. s = t @ [CHR 0x0A] \<and> email_forma t)"
  by (simp add: re_match_padrao_partes partes_fim email_forma_partes)

lemma set_dropWhile_mantem: "x \<in> set xs \<Longrightarrow> \<not> P x \<Longrightarrow> x \<in> set (dropWhile P xs)"
  by (induction xs) auto

lemma py_strip_mantem: "x \<in> set s \<Longrightarrow> \<not> py_isspace x \<Longrightarrow> x \<in> set (py_strip s)"
  by (simp add: py_strip_def set_dropWhile_mantem)

lemma arroba_nao_espaco: "\<not> py_isspace CHR ''@''"
  by (simp add: py_isspace_def codigo_def)

lemma espaco_fora_local: "py_isspace c \<Longrightarrow> \<not> na_classe classe_local c"
  by (auto simp: py_isspace_def na_classe_def classe_local_def codigo_def)

lemma espaco_fora_letras: "py_isspace c \<Longrightarrow> \<not> na_classe classe_letras c"
  by (auto simp: py_isspace_def na_classe_def classe_letras_def codigo_def)

lemma partes_arroba: "partes s fim \<Longrightarrow> CHR ''@'' \<in> set s"
  by (auto simp: partes_def)

lemma re_match_padrao_strip:
  assumes "re_match padrao s"
  shows "py_strip s \<noteq> [] \<and> py_strip s \<noteq> ''nan''"
proof -
  have "CHR ''@'' \<in> set s"
    using assms partes_arroba by (auto simp: re_match_padrao_partes)
  then have "CHR ''@'' \<in> set (py_strip s)"
    by (rule py_strip_mantem) (rule arroba_nao_espaco)
  then show ?thesis by auto
qed

lemma validar_email_individual_forma:
  "validar_email_individual (Some s) \<longleftrightarrow>
     email_forma s \<or> (\<exists>t. s = t @ [CHR 0x0A] \<and> email_forma t)"
proof -
  have "validar_email_individual (Some s) \<longleftrightarrow> re_match padrao s"
    using re_match_padrao_strip [of s]
    by (auto simp: validar_email_individual_def pd_isna_def py_str_def)
  then show ?thesis by (simp add: re_match_padrao_forma)
qed

lemma validar_email_individual_nulo: "\<not> validar_email_individual None"
  by (simp add: validar_email_individual_def pd_isna_def)

lemma partes_primeiro: "partes s fim \<Longrightarrow> s \<noteq> [] \<and> na_classe classe_local (hd s)"
  by (cases "s") (auto simp: partes_def Cons_eq_append_conv)

lemma validar_email_espaco_inicial:
  assumes "s \<noteq> []" and "py_isspace (hd s)"
  shows "\<not> validar_email_individual (Some s)"
proof
  assume "validar_email_individual (Some s)"
  then have "re_match padrao s"
    by (auto simp: validar_email_individual_def py_str_def split: if_splits)
  then have "na_classe classe_local (hd s)"
    using partes_primeiro by (auto simp: re_match_padrao_partes)
  then show False using assms(2) espaco_fora_local by blast
qed

lemma partes_ultimo: "partes s [] \<Longrightarrow> s \<noteq> [] \<and> na_classe classe_letras (last s)"
proof -
  assume "partes s []"
  then obtain loc dom tld where h: "s = loc @ CHR ''@'' # dom @ CHR ''.'' # tld"
      "2 \<le> length tld" "list_all (na_classe classe_letras) tld"
    unfolding partes_def by auto
  then have ne: "tld \<noteq> []" by auto
  then have "last s = last tld" using h(1) by simp
  moreover have "last tld \<in> set tld" using ne by simp
  ultimately show ?thesis using h(1,3) by (simp add: list_all_iff)
qed

lemma validar_email_espaco_final:
  assumes "s \<noteq> []" and "py_isspace (last s)" and "last s \<noteq> CHR 0x0A"
  shows "\<not> validar_email_individual (Some s)"
proof
  assume "validar_email_individual (Some s)"
  then consider "email_forma s" | t where "s = t @ [CHR 0x0A]"
    unfolding validar_email_individual_forma by blast
  then show False
  proof cases
    case 1
    then have "na_classe classe_letras (last s)"
      using partes_ultimo by (simp add: email_forma_partes)
    then show False using assms(2) espaco_fora_letras by blast
  next
    case 2
    then show False using assms(3) by simp
  qed
qed

text \<open>
  Claim C5. The claim states that \<open>validar_email_individual\<close> accepts a non-blank string
  exactly when the whole string has the email shape. The anchor \<^verbatim>\<open>$\<close> of the pattern also
  holds before a final newline, so the validator accepts \<^verbatim>\<open>a@b.com\<close> followed by a newline, a
  string that does not have the shape. The three examples of the claim do hold.
\<close>

theorem validar_email_individual_nova_linha:
  "validar_email_individual (Some (''a@b.com'' @ [CHR 0x0A]))
   \<and> \<not> email_valido_spec (Some (''a@b.com'' @ [CHR 0x0A]))
   \<and> validar_email_individual (Some ''a@b.com'')
   \<and> \<not> validar_email_individual (Some ''a@b'')
   \<and> \<not> validar_email_individual (Some '''')"
  by code_simp

text \<open>
  Claim C10. The claim states that a string with a leading or trailing whitespace character
  that is not entirely whitespace is rejected. The string \<^verbatim>\<open>a@b.com\<close> followed by a newline
  ends in a whitespace character, is not entirely whitespace, and is accepted. Lemmas
  \<open>validar_email_espaco_inicial\<close> and \<open>validar_email_espaco_final\<close> above show that this
  final newline is the only exception.
\<close>

theorem validar_email_individual_espaco_final_aceito:
  "py_isspace (last (''a@b.com'' @ [CHR 0x0A]))
   \<and> \<not> so_espacos (''a@b.com'' @ [CHR 0x0A])
   \<and> validar_email_individual (Some (''a@b.com'' @ [CHR 0x0A]))"
  by code_simp

section \<open>The numeric bounds of the schema\<close>

text \<open>
  Claim C6. Under the checks that the schema declares, a decimal contract value passes
  exactly when it is at least 0, and a whole-number age passes exactly when it lies between
  1 and 150; so the ages 0 and 151 fail, the age 150 passes, the contract value -0.01 fails
  and the contract value 0 passes.
\<close>

theorem schema_limites_numericos:
  "(passa_checks ''valor_contrato'' (Decimal q) \<longleftrightarrow> 0 \<le> q)
   \<and> (passa_checks ''idade'' (Inteiro n) \<longleftrightarrow> 1 \<le> n \<and> n \<le> 150)
   \<and> \<not> passa_checks ''idade'' (Inteiro 0)
   \<and> \<not> passa_checks ''idade'' (Inteiro 151)
   \<and> passa_checks ''idade'' (Inteiro 150)
   \<and> \<not> passa_checks ''valor_contrato'' (Decimal (- 1 / 100))
   \<and> passa_checks ''valor_contrato'' (Decimal 0)"
  by (auto simp: passa_checks_def schema_def checks_que_falham_def)

section \<open>The partition of the records\<close>

lemma falhas_celula_rotulo:
  "f \<in> set (falhas_celula co i nome col c) \<Longrightarrow> f_index f = Some i \<and> f_column f = Some nome"
  by (auto simp: falhas_celula_def split: option.splits if_splits)

lemma falhas_linha_index:
  "f \<in> set (falhas_linha co cols linha) \<Longrightarrow> f_index f = Some (fst linha)"
  by (auto simp: falhas_linha_def dest: falhas_celula_rotulo)

lemma falhas_ausentes_index: "f \<in> set (falhas_ausentes cols) \<Longrightarrow> f_index f = None"
  by (auto simp: falhas_ausentes_def)

lemma filtrar_ausentes:
  "filter (\<lambda>f. \<exists>y. f_index f = Some y) (falhas_ausentes cols) = []"
  by (auto simp: filter_empty_conv dest: falhas_ausentes_index)

lemma filtrar_linhas:
  "filter (\<lambda>f. \<exists>y. f_index f = Some y) (concat (map (falhas_linha co cols) ls))
     = concat (map (falhas_linha co cols) ls)"
  by (rule filter_True) (auto dest: falhas_linha_index)

lemma set_map_filter: "set (List.map_filter g xs) = {y. \<exists>x\<in>set xs. g x = Some y}"
  by (force simp: List.map_filter_def image_iff)

lemma enumerate_rotulo_unico:
  "(i, r) \<in> set (enumerate k rs) \<Longrightarrow> (i, r') \<in> set (enumerate k rs) \<Longrightarrow> r = r'"
  by (auto simp: in_set_enumerate_eq)

lemma linhas_com_erro_conv:
  assumes "(i, r) \<in> set (enumerate k rs)"
  shows "i \<in> set (List.map_filter f_index (concat (map (falhas_linha co cols) (enumerate k rs))))
     \<longleftrightarrow> falhas_linha co cols (i, r) \<noteq> []"
proof
  assume "i \<in> set (List.map_filter f_index (concat (map (falhas_linha co cols) (enumerate k rs))))"
  then obtain f l where h: "l \<in> set (enumerate k rs)" "f \<in> set (falhas_linha co cols l)"
    "f_index f = Some i"
    by (auto simp: set_map_filter)
  then have "fst l = i" using falhas_linha_index [OF h(2)] by simp
  then have "l = (i, r)"
    using h(1) assms enumerate_rotulo_unico [of i "snd l" k rs r] by (cases l) auto
  then show "falhas_linha co cols (i, r) \<noteq> []" using h(2) by auto
next
  assume "falhas_linha co cols (i, r) \<noteq> []"
  then obtain f where f: "f \<in> set (falhas_linha co cols (i, r))"
    by (cases "falhas_linha co cols (i, r)") auto
  then have "f_index f = Some i" using falhas_linha_index [OF f] by simp
  then show "i \<in> set (List.map_filter f_index (concat (map (falhas_linha co cols) (enumerate k rs))))"
    using f assms by (auto simp: set_map_filter)
qed

lemma validar_dados_Inr:
  "validar_dados co (Inr p) =
     Inr (if falhas_ausentes (cabecalho p) = []
             \<and> concat (map (falhas_linha co (cabecalho p)) (enumerate 0 (registros p))) = []
          then (\<lparr>colunas = cabecalho p,
                  linhas = map (\<lambda>(i, r). (i, coagir_linha co (cabecalho p) r))
                             (enumerate 0 (registros p))\<rparr>, [])
          else (\<lparr>colunas = cabecalho p,
                  linhas = filter (\<lambda>(i, r). falhas_linha co (cabecalho p) (i, r) = [])
                             (enumerate 0 (registros p))\<rparr>,
                concat (map (falhas_linha co (cabecalho p)) (enumerate 0 (registros p)))))"
proof -
  let ?cols = "cabecalho p" and ?ls = "enumerate 0 (registros p)"
  let ?F = "concat (map (falhas_linha co ?cols) ?ls)"
  have fil: "filter (\<lambda>(i, r). i \<notin> set (List.map_filter f_index ?F)) ?ls
      = filter (\<lambda>(i, r). falhas_linha co ?cols (i, r) = []) ?ls"
    by (rule filter_cong) (auto simp: linhas_com_erro_conv)
  show ?thesis
    using fil
    by (simp add: validar_dados_def pd_read_excel_def schema_validate_def bind_erro_def
        filtrar_ausentes filtrar_linhas Let_def del: set_concat)
qed

lemma validar_dados_Inl: "validar_dados co (Inl e) = Inl e"
  by (simp add: validar_dados_def pd_read_excel_def bind_erro_def)

lemma conta_particao:
  assumes "A \<subseteq> {..<n}"
  shows "length (filter (\<lambda>i. i \<notin> A) [0..<n]) + card A = n"
proof -
  have "length (filter (\<lambda>i. i \<notin> A) [0..<n]) = card ({i. i \<notin> A} \<inter> set [0..<n])"
    by (rule distinct_length_filter) simp
  also have "{i. i \<notin> A} \<inter> set [0..<n] = {..<n} - A" by auto
  also have "card ({..<n} - A) = n - card A"
    using assms by (simp add: card_Diff_subset finite_subset [OF assms])
  finally have "length (filter (\<lambda>i. i \<notin> A) [0..<n]) = n - card A" .
  moreover have "card A \<le> n"
    using card_mono [OF _ assms] by simp
  ultimately show ?thesis by simp
qed

lemma indices_em_linhas:
  assumes "f \<in> set (concat (map (falhas_linha co cols) (enumerate 0 rs)))"
    and "f_index f = Some i"
  shows "i < length rs"
proof -
  from assms(1) obtain l where l: "l \<in> set (enumerate 0 rs)" "f \<in> set (falhas_linha co cols l)"
    by auto
  then have "fst l = i" using falhas_linha_index [OF l(2)] assms(2) by simp
  then show ?thesis using l(1) by (cases l) (auto simp: in_set_enumerate_eq)
qed

lemma filtro_por_rotulo:
  "filter (\<lambda>(i, r). falhas_linha co cols (i, r) = []) (enumerate 0 rs)
     = filter (\<lambda>(i, r). i \<notin> {i. \<exists>f\<in>set (concat (map (falhas_linha co cols) (enumerate 0 rs))).
                                   f_index f = Some i}) (enumerate 0 rs)"
proof (rule filter_cong [OF refl])
  fix l assume l: "l \<in> set (enumerate 0 rs)"
  obtain i r where ir: "l = (i, r)" by (cases l)
  have "i \<in> set (List.map_filter f_index (concat (map (falhas_linha co cols) (enumerate 0 rs))))
     \<longleftrightarrow> falhas_linha co cols (i, r) \<noteq> []"
    using l ir by (intro linhas_com_erro_conv) simp
  then show "(case l of (i, r) \<Rightarrow> falhas_linha co cols (i, r) = [])
     = (case l of (i, r) \<Rightarrow> i \<notin> {i. \<exists>f\<in>set (concat (map (falhas_linha co cols) (enumerate 0 rs))).
                                   f_index f = Some i})"
    unfolding ir set_map_filter by auto
qed

lemma map_fst_filtro:
  "map fst (filter (\<lambda>(i, r). i \<notin> A) (enumerate 0 rs)) = filter (\<lambda>i. i \<notin> A) [0..<length rs]"
proof -
  have "filter (\<lambda>i. i \<notin> A) (map fst (enumerate 0 rs))
      = map fst (filter ((\<lambda>i. i \<notin> A) \<circ> fst) (enumerate 0 rs))"
    by (rule filter_map)
  moreover have "((\<lambda>i. i \<notin> A) \<circ> fst) = (\<lambda>(i, r). i \<notin> A)" by auto
  moreover have "map fst (enumerate 0 rs) = [0..<length rs]" by simp
  ultimately show ?thesis by metis
qed

lemma validar_dados_sucesso:
  assumes "falhas_ausentes (cabecalho p) = []"
    and "concat (map (falhas_linha co (cabecalho p)) (enumerate 0 (registros p))) = []"
  shows "validar_dados co (Inr p) =
     Inr (\<lparr>colunas = cabecalho p,
            linhas = map (\<lambda>(i, r). (i, coagir_linha co (cabecalho p) r))
                       (enumerate 0 (registros p))\<rparr>, [])"
  using assms by (simp only: validar_dados_Inr simp_thms if_True)

lemma validar_dados_falha:
  assumes "\<not> (falhas_ausentes (cabecalho p) = []
      \<and> concat (map (falhas_linha co (cabecalho p)) (enumerate 0 (registros p))) = [])"
  shows "validar_dados co (Inr p) =
     Inr (\<lparr>colunas = cabecalho p,
            linhas = filter (\<lambda>(i, r). falhas_linha co (cabecalho p) (i, r) = [])
                       (enumerate 0 (registros p))\<rparr>,
          concat (map (falhas_linha co (cabecalho p)) (enumerate 0 (registros p))))"
  using assms by (simp only: validar_dados_Inr if_False)

text \<open>
  Claim C2. The pair returned by \<open>validar_dados\<close> partitions the records of the sheet. With
  \<open>ruins\<close> the row labels that occur in the returned failures: the labels of the valid
  records are, in the order of the sheet, the labels that are not in \<open>ruins\<close>; the valid
  records are those rows of the sheet (as read when there are failures, as the coerced
  copies that validation returns when there are none); and the number of valid records plus
  the number of distinct labels in the failures is the number of records of the sheet.
\<close>

theorem validar_dados_particao:
  assumes "validar_dados co (Inr p) = Inr (validos, falhas)"
  defines "ruins \<equiv> {i. \<exists>f\<in>set falhas. f_index f = Some i}"
  shows "map fst (linhas validos) = filter (\<lambda>i. i \<notin> ruins) [0..<length (registros p)]
     \<and> (linhas validos = filter (\<lambda>(i, r). i \<notin> ruins) (enumerate 0 (registros p))
        \<or> linhas validos = map (\<lambda>(i, r). (i, coagir_linha co (cabecalho p) r))
                              (filter (\<lambda>(i, r). i \<notin> ruins) (enumerate 0 (registros p))))
     \<and> length (linhas validos) + card ruins = length (registros p)"
proof -
  let ?ls = "enumerate 0 (registros p)"
  let ?F = "concat (map (falhas_linha co (cabecalho p)) ?ls)"
  have sub: "ruins \<subseteq> {..<length (registros p)}" and
    conteudo: "linhas validos = filter (\<lambda>(i, r). i \<notin> ruins) ?ls
       \<or> linhas validos = map (\<lambda>(i, r). (i, coagir_linha co (cabecalho p) r))
                              (filter (\<lambda>(i, r). i \<notin> ruins) ?ls)"
  proof -
    show "ruins \<subseteq> {..<length (registros p)}"
    proof (cases "falhas_ausentes (cabecalho p) = [] \<and> ?F = []")
      case True
      then have "falhas = []"
        using assms(1) validar_dados_sucesso [of p co] by simp
      then show ?thesis by (simp add: ruins_def)
    next
      case False
      have "falhas = ?F"
        using assms(1) validar_dados_falha [OF False] by simp
      then show ?thesis
        unfolding ruins_def using indices_em_linhas [of _ co "cabecalho p" "registros p"]
        by blast
    qed
    show "linhas validos = filter (\<lambda>(i, r). i \<notin> ruins) ?ls
       \<or> linhas validos = map (\<lambda>(i, r). (i, coagir_linha co (cabecalho p) r))
                              (filter (\<lambda>(i, r). i \<notin> ruins) ?ls)"
    proof (cases "falhas_ausentes (cabecalho p) = [] \<and> ?F = []")
      case True
      then have "falhas = []"
        and "linhas validos = map (\<lambda>(i, r). (i, coagir_linha co (cabecalho p) r)) ?ls"
        using assms(1) validar_dados_sucesso [of p co] by auto
      then show ?thesis by (simp add: ruins_def)
    next
      case False
      have f: "falhas = ?F"
        and "linhas validos = filter (\<lambda>(i, r). falhas_linha co (cabecalho p) (i, r) = []) ?ls"
        using assms(1) validar_dados_falha [OF False] by auto
      then have "linhas validos = filter (\<lambda>(i, r). i \<notin> ruins) ?ls"
        unfolding ruins_def f filtro_por_rotulo by simp
      then show ?thesis by simp
    qed
  qed
  have indices: "map fst (linhas validos) = filter (\<lambda>i. i \<notin> ruins) [0..<length (registros p)]"
  proof -
    have "map fst (map (\<lambda>(i, r). (i, coagir_linha co (cabecalho p) r))
                       (filter (\<lambda>(i, r). i \<notin> ruins) ?ls))
        = map fst (filter (\<lambda>(i, r). i \<notin> ruins) ?ls)"
      by (simp add: case_prod_unfold comp_def)
    then show ?thesis using conteudo map_fst_filtro [of ruins "registros p"] by auto
  qed
  have "length (linhas validos) = length (filter (\<lambda>i. i \<notin> ruins) [0..<length (registros p)])"
    using indices by (metis length_map)
  then have "length (linhas validos) + card ruins = length (registros p)"
    using conta_particao [OF sub] by simp
  then show ?thesis using indices conteudo by simp
qed

theorem validar_dados_particao_witness:
  "validar_dados coerce_basico (Inr planilha_exemplo) =
     Inr (\<lparr>colunas = [''nome'', ''cpf'', ''email'', ''valor_contrato'', ''idade''],
            linhas =
              [(0, [Texto ''Ana'', Texto ''111.444.777-35'', Texto ''ana@b.com'', Decimal 100, Inteiro 30]),
               (2, [Texto ''Eva'', Texto ''11144477735'', Texto ''eva@b.com'', Inteiro 7, Inteiro 150])]\<rparr>,
          [\<lparr>f_index = Some 1, f_column = Some ''email'',
             f_check = ''Email inv'' @ [CHR 0xE1] @ ''lido'',
             f_failure_case = Some (Texto ''a@b'')\<rparr>])
   \<and> length [(0::nat, [Texto ''Ana'', Texto ''111.444.777-35'', Texto ''ana@b.com'', Decimal 100, Inteiro 30]),
              (2, [Texto ''Eva'', Texto ''11144477735'', Texto ''eva@b.com'', Inteiro 7, Inteiro 150])]
       + card {i. \<exists>f\<in>set [\<lparr>f_index = Some 1, f_column = Some ''email'',
                                f_check = ''Email inv'' @ [CHR 0xE1] @ ''lido'',
                                f_failure_case = Some (Texto ''a@b'')\<rparr>]. f_index f = Some i}
       = length (registros planilha_exemplo)"
proof -
  have h: "validar_dados coerce_basico (Inr planilha_exemplo) =
     Inr (\<lparr>colunas = [''nome'', ''cpf'', ''email'', ''valor_contrato'', ''idade''],
            linhas =
              [(0, [Texto ''Ana'', Texto ''111.444.777-35'', Texto ''ana@b.com'', Decimal 100, Inteiro 30]),
               (2, [Texto ''Eva'', Texto ''11144477735'', Texto ''eva@b.com'', Inteiro 7, Inteiro 150])]\<rparr>,
          [\<lparr>f_index = Some 1, f_column = Some ''email'',
             f_check = ''Email inv'' @ [CHR 0xE1] @ ''lido'',
             f_failure_case = Some (Texto ''a@b'')\<rparr>])"
    by code_simp
  show ?thesis
    using validar_dados_particao [OF h] h by simp
qed

section \<open>An absent field\<close>

lemma falhas_ausentes_vazio: "falhas_ausentes cols = [] \<longleftrightarrow> campos_ausentes cols = []"
  by (simp add: falhas_ausentes_def)

lemma validar_dados_retorna_par:
  "\<exists>validos falhas. validar_dados co (Inr p) = Inr (validos, falhas)"
proof (cases "falhas_ausentes (cabecalho p) = []
        \<and> concat (map (falhas_linha co (cabecalho p)) (enumerate 0 (registros p))) = []")
  case True
  then show ?thesis using validar_dados_sucesso [of p co] by blast
next
  case False
  then show ?thesis using validar_dados_falha [of p co] by blast
qed

text \<open>
  Claim C3, as amended. When a field of the schema is absent from the sheet, validation
  does not abort the run: lazy validation raises \<^verbatim>\<open>SchemaErrors\<close>, the script catches it, and
  \<open>validar_dados\<close> returns a pair to its caller.
\<close>

theorem validar_dados_campo_ausente:
  assumes "campos_ausentes (cabecalho p) \<noteq> []"
  shows "(\<exists>failure_cases.
            schema_validate co \<lparr>colunas = cabecalho p, linhas = enumerate 0 (registros p)\<rparr>
              = SchemaErrors failure_cases)
     \<and> (\<exists>validos falhas. validar_dados co (Inr p) = Inr (validos, falhas))"
proof -
  have "falhas_ausentes (cabecalho p) \<noteq> []"
    using assms by (simp add: falhas_ausentes_vazio)
  then have "\<exists>failure_cases.
      schema_validate co \<lparr>colunas = cabecalho p, linhas = enumerate 0 (registros p)\<rparr>
        = SchemaErrors failure_cases"
    by (simp add: schema_validate_def Let_def)
  then show ?thesis using validar_dados_retorna_par [of co p] by blast
qed

theorem validar_dados_campo_ausente_witness:
  "campos_ausentes (cabecalho planilha_sem_cpf) \<noteq> []
   \<and> (\<exists>failure_cases.
            schema_validate coerce_basico
              \<lparr>colunas = cabecalho planilha_sem_cpf,
                linhas = enumerate 0 (registros planilha_sem_cpf)\<rparr>
              = SchemaErrors failure_cases)
   \<and> (\<exists>validos falhas.
          validar_dados coerce_basico (Inr planilha_sem_cpf) = Inr (validos, falhas))"
proof -
  have h: "campos_ausentes (cabecalho planilha_sem_cpf) \<noteq> []" by code_simp
  show ?thesis
    using validar_dados_campo_ausente [OF h, of coerce_basico] h by blast
qed

text \<open>
  What the pair holds in that case is not part of the amended claim. The entry for the
  absent field has no row label, so the filter on the labels removes it, and no record is
  excluded on its account: the absent field is reported nowhere, although the schema marks
  it \<^verbatim>\<open>nullable=False  # CPF is required\<close> and an empty cell in a present column does
  reject its record.
\<close>

lemma validar_dados_campo_ausente_descartado:
  assumes "campos_ausentes (cabecalho p) \<noteq> []"
  shows "validar_dados co (Inr p) =
     Inr (\<lparr>colunas = cabecalho p,
            linhas = filter (\<lambda>(i, r). falhas_linha co (cabecalho p) (i, r) = [])
                       (enumerate 0 (registros p))\<rparr>,
          concat (map (falhas_linha co (cabecalho p)) (enumerate 0 (registros p))))"
proof -
  have "\<not> (falhas_ausentes (cabecalho p) = []
      \<and> concat (map (falhas_linha co (cabecalho p)) (enumerate 0 (registros p))) = [])"
    using assms by (simp add: falhas_ausentes_vazio)
  then show ?thesis by (rule validar_dados_falha)
qed

text \<open>
  Claim C3, as stated, fails: for a sheet without the \<^verbatim>\<open>cpf\<close> column the script returns a
  pair, with every record valid and no failure.
\<close>

theorem validar_dados_sem_cpf_retorna_par:
  "''cpf'' \<in> set (map fst schema) \<and> ''cpf'' \<notin> set (cabecalho planilha_sem_cpf)
   \<and> validar_dados coerce_basico (Inr planilha_sem_cpf) =
       Inr (\<lparr>colunas = [''nome'', ''email'', ''valor_contrato'', ''idade''],
              linhas = [(0, [Texto ''Ana'', Texto ''ana@b.com'', Decimal 100, Inteiro 30])]\<rparr>, [])"
  by code_simp

section \<open>Exhaustive evaluation\<close>

lemma viola_falha:
  assumes "viola co cols r campo"
  shows "\<exists>f\<in>set (falhas_linha co cols (i, r)). f_index f = Some i \<and> f_column f = Some campo"
proof -
  from assms obtain col where col: "map_of schema campo = Some col" and pres: "campo \<in> set cols"
    and v: "(case coagir co col (celula_de cols r campo) of
                None \<Rightarrow> True
              | Some v \<Rightarrow> if v = Nulo then \<not> nullable col
                  else \<not> list_all (\<lambda>(chk, rotulo). check_ok chk v) (checks col))"
    by (auto simp: viola_def split: option.splits)
  have "(campo, col) \<in> set schema" using col by (rule map_of_SomeD)
  then have mem: "(campo, col) \<in> set (campos_presentes cols)"
    using pres by (simp add: campos_presentes_def)
  have "falhas_celula co i campo col (celula_de cols r campo) \<noteq> []"
    using v by (auto simp: falhas_celula_def checks_que_falham_def filter_empty_conv
        list_all_iff split: option.splits if_splits)
  then obtain f where f: "f \<in> set (falhas_celula co i campo col (celula_de cols r campo))"
    by (cases "falhas_celula co i campo col (celula_de cols r campo)") auto
  then have "f \<in> set (falhas_linha co cols (i, r))"
    using mem by (force simp: falhas_linha_def)
  then show ?thesis using falhas_celula_rotulo [OF f] by blast
qed

lemma dois_elementos: "x \<in> set xs \<Longrightarrow> y \<in> set xs \<Longrightarrow> x \<noteq> y \<Longrightarrow> 2 \<le> length xs"
proof -
  assume a: "x \<in> set xs" "y \<in> set xs" "x \<noteq> y"
  then have "{x, y} \<subseteq> set xs" by simp
  then have "card {x, y} \<le> card (set xs)" by (intro card_mono) simp_all
  moreover have "card {x, y} = 2" using a(3) by simp
  moreover have "card (set xs) \<le> length xs" by (rule card_length)
  ultimately show ?thesis by simp
qed

lemma membro_nao_vazio: "x \<in> set xs \<Longrightarrow> \<not> (ys = [] \<and> xs = [])"
  by (cases xs) simp_all

lemma linha_em_enumerate: "i < length rs \<Longrightarrow> (i, rs ! i) \<in> set (enumerate 0 rs)"
  by (simp add: in_set_enumerate_eq)

lemma validar_dados_todo_check:
  assumes "i < length (registros p)"
    and "(campo, col) \<in> set schema" and "campo \<in> set (cabecalho p)"
    and "coagir co col (celula_de (cabecalho p) (registros p ! i) campo) = Some v"
    and "v \<noteq> Nulo"
    and "(chk, rotulo) \<in> set (checks col)" and "\<not> check_ok chk v"
  shows "\<exists>validos falhas. validar_dados co (Inr p) = Inr (validos, falhas)
     \<and> \<lparr>f_index = Some i, f_column = Some campo, f_check = rotulo, f_failure_case = Some v\<rparr>
         \<in> set falhas"
proof -
  let ?f = "\<lparr>f_index = Some i, f_column = Some campo, f_check = rotulo, f_failure_case = Some v\<rparr>"
  let ?F = "concat (map (falhas_linha co (cabecalho p)) (enumerate 0 (registros p)))"
  have "(chk, rotulo) \<in> set (checks_que_falham col v)"
    using assms(6,7) by (simp add: checks_que_falham_def)
  then have "?f \<in> set (falhas_celula co i campo col (celula_de (cabecalho p) (registros p ! i) campo))"
    using assms(4,5) by (force simp: falhas_celula_def)
  moreover have "(campo, col) \<in> set (campos_presentes (cabecalho p))"
    using assms(2,3) by (simp add: campos_presentes_def)
  ultimately have "?f \<in> set (falhas_linha co (cabecalho p) (i, registros p ! i))"
    by (force simp: falhas_linha_def)
  then have mem: "?f \<in> set ?F"
    using linha_em_enumerate [OF assms(1)] by auto
  then have "\<not> (falhas_ausentes (cabecalho p) = [] \<and> ?F = [])" by (rule membro_nao_vazio)
  from validar_dados_falha [OF this] mem show ?thesis by blast
qed

text \<open>
  Claim C7. Validation does not stop at the first failing field: a record that violates two
  different fields of the schema has, in the failures of one run, an entry for each of the
  two fields, hence at least two entries. Lemma \<open>validar_dados_todo_check\<close> above is the
  statement per check: every check of a field that fails on the coerced value of a record
  has its own entry.
\<close>

theorem validar_dados_exaustiva:
  assumes "i < length (registros p)"
    and "viola co (cabecalho p) (registros p ! i) campo1"
    and "viola co (cabecalho p) (registros p ! i) campo2"
    and "campo1 \<noteq> campo2"
  shows "\<exists>validos falhas. validar_dados co (Inr p) = Inr (validos, falhas)
     \<and> (\<exists>f\<in>set falhas. f_index f = Some i \<and> f_column f = Some campo1)
     \<and> (\<exists>f\<in>set falhas. f_index f = Some i \<and> f_column f = Some campo2)
     \<and> 2 \<le> length (filter (\<lambda>f. f_index f = Some i) falhas)"
proof -
  let ?F = "concat (map (falhas_linha co (cabecalho p)) (enumerate 0 (registros p)))"
  let ?l = "(i, registros p ! i)"
  from viola_falha [OF assms(2), of i] obtain f1 where
    f1: "f1 \<in> set (falhas_linha co (cabecalho p) ?l)" "f_index f1 = Some i" "f_column f1 = Some campo1"
    by blast
  from viola_falha [OF assms(3), of i] obtain f2 where
    f2: "f2 \<in> set (falhas_linha co (cabecalho p) ?l)" "f_index f2 = Some i" "f_column f2 = Some campo2"
    by blast
  have l: "?l \<in> set (enumerate 0 (registros p))" using assms(1) by (rule linha_em_enumerate)
  have m1: "f1 \<in> set ?F" and m2: "f2 \<in> set ?F" using f1(1) f2(1) l by auto
  have ne: "f1 \<noteq> f2" using f1(3) f2(3) assms(4) by auto
  have "f1 \<in> set (filter (\<lambda>f. f_index f = Some i) ?F)" "f2 \<in> set (filter (\<lambda>f. f_index f = Some i) ?F)"
    using m1 m2 f1(2) f2(2) by simp_all
  then have two: "2 \<le> length (filter (\<lambda>f. f_index f = Some i) ?F)"
    using ne by (rule dois_elementos)
  have "\<not> (falhas_ausentes (cabecalho p) = [] \<and> ?F = [])" using m1 by (rule membro_nao_vazio)
  from validar_dados_falha [OF this] show ?thesis
    using m1 m2 f1(2,3) f2(2,3) two by blast
qed

theorem validar_dados_exaustiva_witness:
  "1 < length (registros planilha_duas_falhas)
   \<and> viola coerce_basico (cabecalho planilha_duas_falhas) (registros planilha_duas_falhas ! 1) ''email''
   \<and> viola coerce_basico (cabecalho planilha_duas_falhas) (registros planilha_duas_falhas ! 1) ''idade''
   \<and> (\<exists>validos falhas. validar_dados coerce_basico (Inr planilha_duas_falhas) = Inr (validos, falhas)
     \<and> (\<exists>f\<in>set falhas. f_index f = Some 1 \<and> f_column f = Some ''email'')
     \<and> (\<exists>f\<in>set falhas. f_index f = Some 1 \<and> f_column f = Some ''idade'')
     \<and> 2 \<le> length (filter (\<lambda>f. f_index f = Some 1) falhas))"
proof -
  have a: "1 < length (registros planilha_duas_falhas)" by code_simp
  have b: "viola coerce_basico (cabecalho planilha_duas_falhas) (registros planilha_duas_falhas ! 1) ''email''"
    by code_simp
  have c: "viola coerce_basico (cabecalho planilha_duas_falhas) (registros planilha_duas_falhas ! 1) ''idade''"
    by code_simp
  have d: "''email'' \<noteq> ''idade''" by simp
  show ?thesis
    using validar_dados_exaustiva [OF a b c d] a b c by blast
qed

section \<open>Idempotence\<close>













section \<open>The report and the clock\<close>

lemma cabecalho_so_data:
  "(cabecalho_relatorio a n)[3 := x] = (cabecalho_relatorio b n)[3 := x]"
  by (simp add: cabecalho_relatorio_def)

lemma gerar_relatorio_erros_arquivo:
  "arquivos (gerar_relatorio_erros str_valor erros arquivo_saida w) arquivo_saida =
     Some (concat (cabecalho_relatorio (relogio w) (length erros))
           @ concat (corpo_relatorio str_valor erros @ rodape_relatorio))"
  by (simp add: gerar_relatorio_erros_def)

text \<open>
  Claim C4, as amended. For the same failures, two runs of the formatter write the same
  bytes after the header, that is the same record sections and the same footer, whatever
  the clock shows; inside the header only the fourth line written, the \<^verbatim>\<open>Data/Hora\<close> line,
  depends on the clock, and its time is the one that the formatter reads from the clock
  itself.
\<close>

theorem gerar_relatorio_erros_corpo:
  "\<exists>t1 t2. arquivos (gerar_relatorio_erros str_valor erros arquivo_saida w1) arquivo_saida = Some t1
     \<and> arquivos (gerar_relatorio_erros str_valor erros arquivo_saida w2) arquivo_saida = Some t2
     \<and> drop (length (concat (cabecalho_relatorio (relogio w1) (length erros)))) t1
         = concat (corpo_relatorio str_valor erros @ rodape_relatorio)
     \<and> drop (length (concat (cabecalho_relatorio (relogio w2) (length erros)))) t2
         = concat (corpo_relatorio str_valor erros @ rodape_relatorio)
     \<and> take (length (concat (cabecalho_relatorio (relogio w1) (length erros)))) t1
         = concat (cabecalho_relatorio (relogio w1) (length erros))
     \<and> take (length (concat (cabecalho_relatorio (relogio w2) (length erros)))) t2
         = concat (cabecalho_relatorio (relogio w2) (length erros))
     \<and> (cabecalho_relatorio (relogio w1) (length erros))[3 := []]
         = (cabecalho_relatorio (relogio w2) (length erros))[3 := []]
     \<and> cabecalho_relatorio (relogio w1) (length erros) ! 3
         = utf8 (''Data/Hora: '' @ strftime (relogio w1) @ nl)"
  by (simp add: gerar_relatorio_erros_arquivo cabecalho_so_data)
     (simp add: cabecalho_relatorio_def)

text \<open>
  Claim C4, as stated, fails: the time of the header is not an input of the formatter. With
  the same failures and the same path, the report written at noon and the report written at
  midnight differ.
\<close>

theorem gerar_relatorio_erros_le_o_relogio:
  "arquivos (gerar_relatorio_erros (\<lambda>v. '''') [] ''relatorio.txt''
       \<lparr>relogio = meio_dia, arquivos = Map.empty\<rparr>) ''relatorio.txt''
   \<noteq> arquivos (gerar_relatorio_erros (\<lambda>v. '''') [] ''relatorio.txt''
       \<lparr>relogio = meia_noite, arquivos = Map.empty\<rparr>) ''relatorio.txt''"
  by code_simp

section \<open>The order of the summary\<close>

lemma ordem_invertida_entradas:
  "set (ordem_invertida xs) = set xs \<and> length (ordem_invertida xs) = length xs"
  by (simp add: ordem_invertida_def)

lemma ordem_invertida_decrescente:
  "sorted_wrt (\<lambda>a b. snd b \<le> snd a) (ordem_invertida xs)"
proof -
  have "sorted (map snd (sort_key snd xs))" by (rule sorted_sort_key)
  then have "sorted_wrt (\<lambda>a b. snd a \<le> snd b) (sort_key snd xs)"
    by (simp add: sorted_map)
  then show ?thesis
    by (simp add: ordem_invertida_def sorted_wrt_rev)
qed

text \<open>
  Claim C9, as amended. Whatever sort the data library applies, as long as it returns the
  entries it was given in descending order of their sizes: the summary has one entry per
  field that occurs in the failures, with the number of its failures, and the entries are in
  descending order of that number. Nothing is stated about entries with equal numbers.
\<close>

theorem resumo_erros_ordem:
  assumes entradas: "\<And>xs. set (sort_values xs) = set xs \<and> length (sort_values xs) = length xs"
    and decrescente: "\<And>xs. sorted_wrt (\<lambda>a b. snd b \<le> snd a) (sort_values xs)"
  shows "sorted_wrt (\<lambda>(c1, n1) (c2, n2). n2 \<le> n1) (resumo_erros sort_values erros)
   \<and> set (resumo_erros sort_values erros) =
       {(campo, n). campo \<in> set (List.map_filter f_column erros)
                    \<and> n = length (filter (\<lambda>e. f_column e = Some campo) erros)}
   \<and> distinct (map fst (resumo_erros sort_values erros))"
proof -
  let ?cs = "sort (remdups (List.map_filter f_column erros))"
  let ?g = "\<lambda>campo. (campo, length (filter (\<lambda>e. f_column e = Some campo) erros))"
  let ?r = "resumo_erros sort_values erros"
  have r: "?r = sort_values (map ?g ?cs)" by (simp add: resumo_erros_def)
  have "sorted_wrt (\<lambda>a b. snd b \<le> snd a) ?r"
    unfolding r by (rule decrescente)
  then have a: "sorted_wrt (\<lambda>(c1, n1) (c2, n2). n2 \<le> n1) ?r"
    by (rule sorted_wrt_mono_rel [rotated]) auto
  have s: "set ?r = set (map ?g ?cs)" and l: "length ?r = length (map ?g ?cs)"
    unfolding r using entradas by simp_all
  have b: "set ?r =
       {(campo, n). campo \<in> set (List.map_filter f_column erros)
                    \<and> n = length (filter (\<lambda>e. f_column e = Some campo) erros)}"
    unfolding s by auto
  have "set (map fst ?r) = set ?cs"
    using s by (simp add: image_image del: set_map) (simp add: image_image)
  moreover have "distinct ?cs" by simp
  then have "card (set ?cs) = length ?cs"
    by (rule distinct_card)
  ultimately have "card (set (map fst ?r)) = length (map fst ?r)"
    using l by simp
  then have c: "distinct (map fst ?r)" by (rule card_distinct)
  show ?thesis using a b c by simp
qed

theorem resumo_erros_ordem_witness:
  "sorted_wrt (\<lambda>(c1, n1) (c2, n2). n2 \<le> n1)
     (resumo_erros ordem_invertida [falha_de 0 ''nome'', falha_de 1 ''cpf'', falha_de 1 ''idade'',
                                    falha_de 2 ''idade''])
   \<and> resumo_erros ordem_invertida [falha_de 0 ''nome'', falha_de 1 ''cpf'', falha_de 1 ''idade'',
                                     falha_de 2 ''idade'']
       = [(''idade'', 2), (''nome'', 1), (''cpf'', 1)]"
proof -
  have v: "resumo_erros ordem_invertida [falha_de 0 ''nome'', falha_de 1 ''cpf'',
             falha_de 1 ''idade'', falha_de 2 ''idade'']
       = [(''idade'', 2), (''nome'', 1), (''cpf'', 1)]"
    by code_simp
  show ?thesis
    using resumo_erros_ordem [of ordem_invertida, OF ordem_invertida_entradas
        ordem_invertida_decrescente,
        of "[falha_de 0 ''nome'', falha_de 1 ''cpf'', falha_de 1 ''idade'', falha_de 2 ''idade'']"]
      v
    by blast
qed

text \<open>
  Claim C9, as stated, fails. With one failure on each of \<^verbatim>\<open>nome\<close>, \<^verbatim>\<open>cpf\<close> and \<^verbatim>\<open>email\<close>
  the three sizes are equal and the schema declares \<^verbatim>\<open>nome\<close>, \<^verbatim>\<open>cpf\<close>, \<^verbatim>\<open>email\<close> in that
  order. A sort that reverses the groups lists \<^verbatim>\<open>nome\<close>, \<^verbatim>\<open>email\<close>, \<^verbatim>\<open>cpf\<close>, and a sort
  that keeps the groups lists \<^verbatim>\<open>cpf\<close>, \<^verbatim>\<open>email\<close>, \<^verbatim>\<open>nome\<close>: neither is the declared order.
\<close>

theorem resumo_erros_empate:
  "resumo_erros ordem_invertida [falha_de 0 ''nome'', falha_de 1 ''cpf'', falha_de 2 ''email'']
     = [(''nome'', 1), (''email'', 1), (''cpf'', 1)]
   \<and> \<not> resumo_ordem_spec
         (resumo_erros ordem_invertida [falha_de 0 ''nome'', falha_de 1 ''cpf'', falha_de 2 ''email''])
   \<and> resumo_erros ordem_estavel [falha_de 0 ''nome'', falha_de 1 ''cpf'', falha_de 2 ''email'']
     = [(''cpf'', 1), (''email'', 1), (''nome'', 1)]
   \<and> \<not> resumo_ordem_spec
         (resumo_erros ordem_estavel [falha_de 0 ''nome'', falha_de 1 ''cpf'', falha_de 2 ''email''])
   \<and> ordem_declaracao ''nome'' < ordem_declaracao ''cpf''
   \<and> ordem_declaracao ''cpf'' < ordem_declaracao ''email''"
  by code_simp

end
